theory Spec2Isabelle
  imports Main "HOL-Library.Sublist" "HOL-Library.AList" "HOL-Library.Multiset"
    "HOL-Library.Char_ord" "HOL-Library.List_Lexorder"
begin

section \<open>The declarative record of the host framework\<close>

text \<open>
  The handlers of the provider read and write a \<open>schema.ResourceData\<close> of the plugin
  SDK. The SDK is a library, not part of the repository; the part of its contract that the
  handlers rely on is written out here. A value is what Go holds in an \<open>interface{}\<close>
  read from the record: a string, a bool, a list (\<open>[]interface{}\<close>) or nothing.

  An element of a list is a string, a block (\<open>map[string]interface{}\<close>) or nil: the
  SDK hands an element that holds nothing but zero values (the empty string, a block with
  no attribute set to anything but its zero value) to the handler as nil.
\<close>

record headerBlock =
  hb_name :: string
  hb_value :: string

text \<open>
  One \<open>custom_webhook_template_attributes\<close> block as the SDK hands it to the provider:
  a \<open>map[string]interface{}\<close> that holds every attribute of the nested schema with a
  value of its declared type. An element of \<open>headers_template\<close> is a block of its own
  or nil (\<open>None\<close>).
\<close>

record templateBlock =
  tb_id :: string
  tb_http_method :: string
  tb_auth_username :: string
  tb_auth_password :: string
  tb_headers_template :: "headerBlock option list"
  tb_body_template :: string

datatype elem = ENil | EString string | EBlock templateBlock

datatype val = VNil | VString string | VBool bool | VList "elem list"

datatype valueType = TypeInvalid | TypeBool | TypeString | TypeList

fun zeroValue :: "valueType \<Rightarrow> val" where
  "zeroValue TypeInvalid = VNil"
| "zeroValue TypeBool = VBool False"
| "zeroValue TypeString = VString []"
| "zeroValue TypeList = VList []"

fun hasType :: "val \<Rightarrow> valueType \<Rightarrow> bool" where
  "hasType (VString s) TypeString = True"
| "hasType (VBool b) TypeBool = True"
| "hasType (VList xs) TypeList = True"
| "hasType v t = False"

text \<open>
  \<open>rd_types\<close> is the schema of the resource (attribute name to type), \<open>rd_id\<close> what
  \<open>d.Id()\<close> returns, \<open>rd_state\<close> the prior state, \<open>rd_plan\<close> the state merged with
  the configuration and the planned diff, \<open>rd_set\<close> what the handler has written with
  \<open>d.Set\<close> so far.
\<close>

record resourceData =
  rd_types :: "string \<rightharpoonup> valueType"
  rd_id :: string
  rd_state :: "string \<rightharpoonup> val"
  rd_plan :: "string \<rightharpoonup> val"
  rd_set :: "string \<rightharpoonup> val"

definition zeroOf :: "resourceData \<Rightarrow> string \<Rightarrow> val" where
  "zeroOf d k = (case rd_types d k of None \<Rightarrow> VNil | Some t \<Rightarrow> zeroValue t)"

text \<open>The merged view that \<open>d.Get\<close>, \<open>d.GetOk\<close> and \<open>d.GetOkExists\<close> read.\<close>

definition merged :: "resourceData \<Rightarrow> string \<rightharpoonup> val" where
  "merged d k = (case rd_set d k of Some v \<Rightarrow> Some v | None \<Rightarrow> rd_plan d k)"

definition d_Get :: "resourceData \<Rightarrow> string \<Rightarrow> val" where
  "d_Get d k = (case merged d k of Some v \<Rightarrow> v | None \<Rightarrow> zeroOf d k)"

text \<open>\<open>d.GetOk\<close>: the value, and whether it is set to something other than the zero value.\<close>

definition d_GetOk :: "resourceData \<Rightarrow> string \<Rightarrow> val \<times> bool" where
  "d_GetOk d k = (d_Get d k, merged d k \<noteq> None \<and> d_Get d k \<noteq> zeroOf d k)"

text \<open>\<open>d.GetOkExists\<close>: the value, and whether it is set at all.\<close>

definition d_GetOkExists :: "resourceData \<Rightarrow> string \<Rightarrow> val \<times> bool" where
  "d_GetOkExists d k = (d_Get d k, merged d k \<noteq> None)"

text \<open>\<open>d.HasChange\<close> compares the prior state with the planned value.\<close>

definition d_HasChange :: "resourceData \<Rightarrow> string \<Rightarrow> bool" where
  "d_HasChange d k =
     ((case rd_state d k of Some v \<Rightarrow> v | None \<Rightarrow> zeroOf d k)
      \<noteq> (case rd_plan d k of Some v \<Rightarrow> v | None \<Rightarrow> zeroOf d k))"

definition d_Id :: "resourceData \<Rightarrow> string" where
  "d_Id d = rd_id d"

text \<open>
  \<open>d.SetId\<close> sets the ID and writes it to the attribute \<open>id\<close> as well, which the
  readers see where the schema has that attribute.
\<close>

definition d_SetId :: "resourceData \<Rightarrow> string \<Rightarrow> resourceData" where
  "d_SetId d v =
     d\<lparr>rd_id := v,
       rd_set := (if rd_types d ''id'' = None then rd_set d
                  else (rd_set d)(''id'' \<mapsto> VString v))\<rparr>"

text \<open>
  \<open>d.Set\<close>: a nil value (also a nil pointer) stores the zero value of the attribute, a
  pointer stores what it points to; a value that does not fit the schema is an error and
  writes nothing.
\<close>

definition d_Set :: "resourceData \<Rightarrow> string \<Rightarrow> val \<Rightarrow> string option \<times> resourceData" where
  "d_Set d k v =
     (case rd_types d k of
        None \<Rightarrow> (Some (''Invalid address to set: '' @ k), d)
      | Some t \<Rightarrow>
          if v = VNil then (None, d\<lparr>rd_set := (rd_set d)(k \<mapsto> zeroValue t)\<rparr>)
          else if hasType v t then (None, d\<lparr>rd_set := (rd_set d)(k \<mapsto> v)\<rparr>)
          else (Some (k @ '': value does not fit the schema''), d))"

subsection \<open>Diagnostics\<close>

datatype diagnostic = Diagnostic (Summary: string)

type_synonym diagnostics = "diagnostic list"

definition FromErr :: "string \<Rightarrow> diagnostics" where
  "FromErr err = [Diagnostic err]"

text \<open>Go's \<open>%d\<close> of an \<open>int\<close>.\<close>

function fmt_nat :: "nat \<Rightarrow> string" where
  "fmt_nat n =
     (if n < 10 then [''0123456789'' ! n]
      else fmt_nat (n div 10) @ [''0123456789'' ! (n mod 10)])"
  by pat_completeness auto
termination
  by (relation "measure id") auto

definition fmt_int :: "int \<Rightarrow> string" where
  "fmt_int i = (if i < 0 then CHR ''-'' # fmt_nat (nat (- i)) else fmt_nat (nat i))"

section \<open>The IP list data source\<close>

text \<open>
  What the handler sees of an \<open>*http.Response\<close>: the status code, the URL of the
  request, and what \<open>io.ReadAll(res.Body)\<close> returns (\<open>Inl\<close> the read error).
\<close>

record response =
  StatusCode :: int
  RequestURL :: string
  Body :: "string + string"

text \<open>
  The client behind \<open>meta\<close>: the outcomes the transport delivers to the requests still
  to come (\<open>Inl\<close> a transport error), and the paths requested so far.
\<close>

record client =
  transport :: "(string + response) list"
  requested :: "string list"

text \<open>
  Modelled from the spec: \<open>(*client).Get\<close>, whose file is not among the sources. The
  spec has every operation make a single synchronous HTTP request: a call sends one
  request and returns its outcome. A transport with nothing left to deliver fails.
\<close>

definition client_Get :: "client \<Rightarrow> string \<Rightarrow> (string + response) \<times> client" where
  "client_Get c path =
     (case transport c of
        [] \<Rightarrow> (Inl ''no response'', c\<lparr>requested := requested c @ [path]\<rparr>)
      | r # rs \<Rightarrow> (r, c\<lparr>transport := rs, requested := requested c @ [path]\<rparr>))"

definition StatusOK :: int where
  "StatusOK = 200"

text \<open>
  \<open>json.Unmarshal\<close> into a \<open>map[string][]string\<close> is a parameter of the handler's
  model: \<open>Inl\<close> the decoding error, \<open>Inr\<close> the map, given as its entries in the order
  in which the \<open>range\<close> statement visits them (an order Go leaves open).
\<close>

type_synonym unmarshal = "string \<Rightarrow> string + (string \<times> string list) list"

text \<open>
  \<open>cluster.(string)\<close> for each requested cluster; \<open>None\<close> is the panic of the
  assertion, which has no \<open>ok\<close> result, on an element that is not a string.
\<close>

fun filterClustersOf :: "elem list \<Rightarrow> (string \<times> bool) list \<Rightarrow> (string \<times> bool) list option" where
  "filterClustersOf [] filterClusters = Some filterClusters"
| "filterClustersOf (EString cluster # rest) filterClusters =
     filterClustersOf rest (AList.update cluster True filterClusters)"
| "filterClustersOf (ENil # rest) filterClusters = None"
| "filterClustersOf (EBlock b # rest) filterClusters = None"

definition index_bool :: "(string \<times> bool) list \<Rightarrow> string \<Rightarrow> bool" where
  "index_bool m k = (case map_of m k of Some b \<Rightarrow> b | None \<Rightarrow> False)"

fun filterLoop ::
  "(string \<times> bool) list \<Rightarrow> (string \<times> string list) list \<Rightarrow> string list \<times> string list
   \<Rightarrow> string list \<times> string list" where
  "filterLoop filterClusters [] (filteredIPs, allClusters) = (filteredIPs, allClusters)"
| "filterLoop filterClusters ((cluster, ips) # rest) (filteredIPs, allClusters) =
     filterLoop filterClusters rest
       (if length filterClusters = 0 \<or> index_bool filterClusters cluster
        then filteredIPs @ ips else filteredIPs,
        allClusters @ [cluster])"

text \<open>
  The handler returns its diagnostics, the record and the client; \<open>None\<close> is a panic of
  a type assertion.
\<close>

definition ipListLookup ::
  "unmarshal \<Rightarrow> resourceData \<Rightarrow> client \<Rightarrow> (diagnostics \<times> resourceData \<times> client) option" where
  "ipListLookup unmarshal d meta =
     (case client_Get meta ''/ips-by-cluster.json'' of
        (Inl err, meta') \<Rightarrow> Some (FromErr err, d, meta')
      | (Inr res, meta') \<Rightarrow>
          (case Body res of
             Inl err \<Rightarrow> Some (FromErr err, d, meta')
           | Inr body \<Rightarrow>
               if StatusCode res \<noteq> StatusOK
               then Some ([Diagnostic (''GET '' @ RequestURL res @ '' returned ''
                             @ fmt_int (StatusCode res) @ '': '' @ body)], d, meta')
               else
                 (case unmarshal body of
                    Inl err \<Rightarrow> Some (FromErr err, d, meta')
                  | Inr ipData \<Rightarrow>
                      (case d_Get d ''filter_clusters'' of
                         VList requestedClusters \<Rightarrow>
                           (case filterClustersOf requestedClusters [] of
                              None \<Rightarrow> None
                            | Some filterClusters \<Rightarrow>
                                (case filterLoop filterClusters ipData ([], []) of
                                   (filteredIPs, allClusters) \<Rightarrow>
                                     let d1 = d_SetId d ''betterstack_ip_list'' in
                                     (case d_Set d1 ''ips'' (VList (map EString filteredIPs)) of
                                        (Some err, d2) \<Rightarrow> Some (FromErr err, d2, meta')
                                      | (None, d2) \<Rightarrow>
                                          (case d_Set d2 ''all_clusters''
                                                  (VList (map EString allClusters)) of
                                             (Some err, d3) \<Rightarrow> Some (FromErr err, d3, meta')
                                           | (None, d3) \<Rightarrow> Some ([], d3, meta')))))
                       | _ \<Rightarrow> None))))"

section \<open>The outgoing webhook resource\<close>

subsection \<open>Schema\<close>

text \<open>
  The fields of \<open>schema.Schema\<close> that the resource uses (the descriptions are left
  out). A field that a literal of the source does not mention has Go's zero value, as in
  \<open>Schema\<close> below. \<open>ValidateFunc\<close> returns warnings and errors.
\<close>

record 'e schema =
  Type :: valueType
  Optional :: bool
  Required :: bool
  Computed :: bool
  ForceNew :: bool
  Sensitive :: bool
  MaxItems :: nat
  Default :: val
  ValidateFunc :: "(val \<Rightarrow> string \<Rightarrow> string list \<times> string list) option"
  DiffSuppressFunc :: "(string \<Rightarrow> string \<Rightarrow> string \<Rightarrow> resourceData \<Rightarrow> bool) option"
  Elem :: "'e option"

definition Schema :: "'e schema" where
  "Schema = \<lparr>Type = TypeInvalid, Optional = False, Required = False, Computed = False,
     ForceNew = False, Sensitive = False, MaxItems = 0, Default = VNil,
     ValidateFunc = None, DiffSuppressFunc = None, Elem = None\<rparr>"

text \<open>
  \<open>strings.EqualFold\<close> of the standard library, on ASCII letters; the resource calls
  \<open>validation.StringInSlice\<close> with \<open>ignoreCase = false\<close> only.
\<close>

definition toLower :: "char \<Rightarrow> char" where
  "toLower c = (if 65 \<le> (of_char c :: nat) \<and> (of_char c :: nat) \<le> 90
                then char_of ((of_char c :: nat) + 32) else c)"

definition EqualFold :: "string \<Rightarrow> string \<Rightarrow> bool" where
  "EqualFold s t = (map toLower s = map toLower t)"

fun inSlice :: "string list \<Rightarrow> bool \<Rightarrow> string \<Rightarrow> bool" where
  "inSlice [] ignoreCase v = False"
| "inSlice (str # valid) ignoreCase v =
     (if v = str \<or> (ignoreCase \<and> EqualFold v str) then True else inSlice valid ignoreCase v)"

text \<open>Go's \<open>%q\<close> of a string slice, for strings that need no escaping.\<close>

fun fmt_q :: "string list \<Rightarrow> string" where
  "fmt_q [] = []"
| "fmt_q [s] = [CHR 0x22] @ s @ [CHR 0x22]"
| "fmt_q (s # ss) = [CHR 0x22] @ s @ [CHR 0x22] @ '' '' @ fmt_q ss"

text \<open>\<open>validation.StringInSlice\<close> of the SDK.\<close>

definition StringInSlice ::
  "string list \<Rightarrow> bool \<Rightarrow> val \<Rightarrow> string \<Rightarrow> string list \<times> string list" where
  "StringInSlice valid ignoreCase i k =
     (case i of
        VString v \<Rightarrow>
          if inSlice valid ignoreCase v then ([], [])
          else ([], [''expected '' @ k @ '' to be one of ['' @ fmt_q valid @ ''], got '' @ v])
      | _ \<Rightarrow> ([], [''expected type of '' @ k @ '' to be string'']))"

subsection \<open>Request and response structs\<close>

text \<open>
  A decoded JSON value, as \<open>encoding/json\<close> stores it in an \<open>interface{}\<close>. A
  number is kept as the text of its literal.
\<close>

datatype json =
  JNull | JBool bool | JNumber string | JString string
  | JArray "json list" | JObject "(string \<times> json) list"

text \<open>A Go pointer is an option: \<open>None\<close> is nil. \<open>BodyTemplate\<close> is an \<open>interface{}\<close>.\<close>

record headerTemplate =
  HeaderName :: string
  HeaderValue :: string

record customWebhookTemplateAttributes =
  TemplateID :: "string option"
  HTTPMethod :: "string option"
  AuthUsername :: "string option"
  AuthPassword :: "string option"
  HeaderTemplate :: "headerTemplate list"
  BodyTemplate :: "json option"

record outgoingWebhook =
  ID :: "string option"
  Name :: "string option"
  URL :: "string option"
  TriggerType :: "string option"
  OnIncidentStarted :: "bool option"
  OnIncidentAcknowledged :: "bool option"
  OnIncidentResolved :: "bool option"
  CustomWebhookTemplateAttributes :: "customWebhookTemplateAttributes option"
  TeamName :: "string option"

text \<open>\<open>var in outgoingWebhook\<close>: every pointer nil.\<close>

definition zeroOutgoingWebhook :: outgoingWebhook where
  "zeroOutgoingWebhook = \<lparr>ID = None, Name = None, URL = None, TriggerType = None,
     OnIncidentStarted = None, OnIncidentAcknowledged = None, OnIncidentResolved = None,
     CustomWebhookTemplateAttributes = None, TeamName = None\<rparr>"

text \<open>\<open>&customWebhookTemplateAttributes{}\<close>.\<close>

definition zeroTemplate :: customWebhookTemplateAttributes where
  "zeroTemplate = \<lparr>TemplateID = None, HTTPMethod = None, AuthUsername = None,
     AuthPassword = None, HeaderTemplate = [], BodyTemplate = None\<rparr>"

record outgoingWebhookHTTPResponse =
  DataID :: string
  DataAttributes :: outgoingWebhook

text \<open>
  \<open>json.Marshal\<close> of the request structs: a field tagged \<open>omitempty\<close> is left out
  when its pointer or interface is nil or its slice is empty.
\<close>

fun omitempty :: "(string \<times> json option) list \<Rightarrow> (string \<times> json) list" where
  "omitempty [] = []"
| "omitempty ((k, None) # fs) = omitempty fs"
| "omitempty ((k, Some v) # fs) = (k, v) # omitempty fs"

definition marshalHeader :: "headerTemplate \<Rightarrow> json" where
  "marshalHeader h = JObject [(''name'', JString (HeaderName h)), (''value'', JString (HeaderValue h))]"

definition marshalTemplate :: "customWebhookTemplateAttributes \<Rightarrow> json" where
  "marshalTemplate t = JObject (omitempty
     [(''id'', map_option JString (TemplateID t)),
      (''http_method'', map_option JString (HTTPMethod t)),
      (''auth_username'', map_option JString (AuthUsername t)),
      (''auth_password'', map_option JString (AuthPassword t)),
      (''headers_template'',
         if HeaderTemplate t = [] then None else Some (JArray (map marshalHeader (HeaderTemplate t)))),
      (''body_template'', BodyTemplate t)])"

definition marshalOutgoingWebhook :: "outgoingWebhook \<Rightarrow> (string \<times> json) list" where
  "marshalOutgoingWebhook w = omitempty
     [(''id'', map_option JString (ID w)),
      (''name'', map_option JString (Name w)),
      (''url'', map_option JString (URL w)),
      (''trigger_type'', map_option JString (TriggerType w)),
      (''on_incident_started'', map_option JBool (OnIncidentStarted w)),
      (''on_incident_acknowledged'', map_option JBool (OnIncidentAcknowledged w)),
      (''on_incident_resolved'', map_option JBool (OnIncidentResolved w)),
      (''custom_webhook_template_attributes'',
         map_option marshalTemplate (CustomWebhookTemplateAttributes w)),
      (''team_name'', map_option JString (TeamName w))]"

subsection \<open>Plan-time validation\<close>

definition incidentFields :: "string list" where
  "incidentFields = [''on_incident_started'', ''on_incident_acknowledged'', ''on_incident_resolved'']"

text \<open>
  The loop over \<open>incidentFields\<close>. The outer \<open>None\<close> is the panic of \<open>value.(bool)\<close>,
  \<open>Some None\<close> the nil error. The \<open>*schema.ResourceDiff\<close> is read with the same
  \<open>Get\<close> and \<open>GetOk\<close> as a \<open>ResourceData\<close>.
\<close>

fun validateFields :: "resourceData \<Rightarrow> string \<Rightarrow> string list \<Rightarrow> string option option" where
  "validateFields d triggerType [] = Some None"
| "validateFields d triggerType (field # rest) =
     (case d_GetOk d field of
        (v, True) \<Rightarrow>
          (case v of
             VBool value \<Rightarrow>
               if value then
                 (if triggerType \<noteq> ''incident_change''
                  then Some (Some (field @ '' can only be set when trigger_type is ''
                                   @ [CHR 0x27] @ ''incident_change'' @ [CHR 0x27]))
                  else validateFields d triggerType rest)
               else validateFields d triggerType rest
           | _ \<Rightarrow> None)
      | (v, False) \<Rightarrow> validateFields d triggerType rest)"

definition validateOutgoingWebhook :: "resourceData \<Rightarrow> string option option" where
  "validateOutgoingWebhook d =
     (case d_Get d ''trigger_type'' of
        VString triggerType \<Rightarrow> validateFields d triggerType incidentFields
      | _ \<Rightarrow> None)"

subsection \<open>The record mapper\<close>

text \<open>
  \<open>outgoingWebhookRef\<close> pairs each attribute name with a pointer to a field of the
  struct. A pointer to a field is the name of the field; \<open>deref\<close> reads through it what
  \<open>reflect.Indirect(reflect.ValueOf(e.v)).Interface()\<close> gives (a nil pointer is \<open>VNil\<close>),
  \<open>store\<close> writes through it, \<open>None\<close> where the type assertion of \<open>load\<close> panics.
\<close>

datatype fieldptr =
  PtrID | PtrName | PtrURL | PtrTriggerType
  | PtrOnIncidentStarted | PtrOnIncidentAcknowledged | PtrOnIncidentResolved | PtrTeamName

definition outgoingWebhookRef :: "string \<Rightarrow> (string \<times> fieldptr) list" where
  "outgoingWebhookRef triggerType =
     (let refs = [(''id'', PtrID), (''name'', PtrName), (''url'', PtrURL),
                  (''trigger_type'', PtrTriggerType)]
      in if triggerType = ''incident_change''
         then refs @ [(''on_incident_started'', PtrOnIncidentStarted),
                      (''on_incident_acknowledged'', PtrOnIncidentAcknowledged),
                      (''on_incident_resolved'', PtrOnIncidentResolved)]
         else refs)"

fun ptrString :: "string option \<Rightarrow> val" where
  "ptrString None = VNil"
| "ptrString (Some s) = VString s"

fun ptrBool :: "bool option \<Rightarrow> val" where
  "ptrBool None = VNil"
| "ptrBool (Some b) = VBool b"

fun deref :: "fieldptr \<Rightarrow> outgoingWebhook \<Rightarrow> val" where
  "deref PtrID w = ptrString (ID w)"
| "deref PtrName w = ptrString (Name w)"
| "deref PtrURL w = ptrString (URL w)"
| "deref PtrTriggerType w = ptrString (TriggerType w)"
| "deref PtrOnIncidentStarted w = ptrBool (OnIncidentStarted w)"
| "deref PtrOnIncidentAcknowledged w = ptrBool (OnIncidentAcknowledged w)"
| "deref PtrOnIncidentResolved w = ptrBool (OnIncidentResolved w)"
| "deref PtrTeamName w = ptrString (TeamName w)"

fun store :: "fieldptr \<Rightarrow> val \<Rightarrow> outgoingWebhook \<Rightarrow> outgoingWebhook option" where
  "store PtrID (VString t) w = Some (w\<lparr>ID := Some t\<rparr>)"
| "store PtrName (VString t) w = Some (w\<lparr>Name := Some t\<rparr>)"
| "store PtrURL (VString t) w = Some (w\<lparr>URL := Some t\<rparr>)"
| "store PtrTriggerType (VString t) w = Some (w\<lparr>TriggerType := Some t\<rparr>)"
| "store PtrOnIncidentStarted (VBool t) w = Some (w\<lparr>OnIncidentStarted := Some t\<rparr>)"
| "store PtrOnIncidentAcknowledged (VBool t) w = Some (w\<lparr>OnIncidentAcknowledged := Some t\<rparr>)"
| "store PtrOnIncidentResolved (VBool t) w = Some (w\<lparr>OnIncidentResolved := Some t\<rparr>)"
| "store PtrTeamName (VString t) w = Some (w\<lparr>TeamName := Some t\<rparr>)"
| "store p v w = None"

text \<open>
  Modelled from the spec: \<open>load\<close>, a helper of the repository whose file is not among
  the sources. The record mapper converts the declarative field map to the request struct:
  \<open>load(d, key, receiver)\<close> stores the value of attribute \<open>key\<close> through the receiver
  when the record has one, and leaves the receiver nil otherwise.
\<close>

definition load :: "resourceData \<Rightarrow> string \<Rightarrow> fieldptr \<Rightarrow> outgoingWebhook \<Rightarrow> outgoingWebhook option" where
  "load d key receiver w =
     (case d_GetOkExists d key of
        (v, True) \<Rightarrow> store receiver v w
      | (v, False) \<Rightarrow> Some w)"

subsection \<open>JSON equivalence of two texts\<close>

text \<open>
  Modelled from the spec: \<open>suppressEquivalentJSONDiffs\<close>, the diff-suppression function
  of \<open>body_template\<close>, whose file is not among the sources. The spec has it treat two
  syntactically different but semantically equivalent values (differently formatted JSON,
  differing in key order or whitespace) as unchanged. The model decodes both texts and
  compares the decoded values the way Go compares decoded JSON: arrays by position,
  objects as maps from key to value, where the last of several members with one key
  counts. A text that does not decode is never equivalent to anything. The decoder reads
  the JSON grammar; it compares a number by the text of its literal and keeps an escape
  with four hexadecimal digits in a string as it is written.
\<close>

datatype token =
  TLBrace | TRBrace | TLBracket | TRBracket | TColon | TComma
  | TTrue | TFalse | TNull | TNumber string | TString string

definition isSpace :: "char \<Rightarrow> bool" where
  "isSpace c = (c = CHR '' '' \<or> c = CHR 0x09 \<or> c = CHR 0x0A \<or> c = CHR 0x0D)"

definition isDigit :: "char \<Rightarrow> bool" where
  "isDigit c = (c \<in> set ''0123456789'')"

definition isHex :: "char \<Rightarrow> bool" where
  "isHex c = (c \<in> set ''0123456789abcdefABCDEF'')"

text \<open>The optional fraction and the optional exponent of a number, with the rest.\<close>

definition lexFraction :: "string \<Rightarrow> (string \<times> string) option" where
  "lexFraction s =
     (case s of
        [] \<Rightarrow> Some ([], s)
      | c # r \<Rightarrow>
          if c = CHR ''.'' then
            (if takeWhile isDigit r = [] then None
             else Some (c # takeWhile isDigit r, dropWhile isDigit r))
          else Some ([], s))"

definition lexExponent :: "string \<Rightarrow> (string \<times> string) option" where
  "lexExponent s =
     (case s of
        [] \<Rightarrow> Some ([], s)
      | e # r \<Rightarrow>
          if e = CHR ''e'' \<or> e = CHR ''E'' then
            (case (case r of
                     [] \<Rightarrow> ([], r)
                   | x # r' \<Rightarrow> if x = CHR ''+'' \<or> x = CHR ''-'' then ([x], r') else ([], r)) of
               (sign, ds) \<Rightarrow>
                 if takeWhile isDigit ds = [] then None
                 else Some (e # sign @ takeWhile isDigit ds, dropWhile isDigit ds))
          else Some ([], s))"

text \<open>
  The grammar of a number: an optional minus, an integer part without a leading zero, a
  fraction, an exponent.
\<close>

definition scanNumber :: "string \<Rightarrow> (string \<times> string) option" where
  "scanNumber s =
     (case (case s of
              [] \<Rightarrow> ([], s)
            | c # r \<Rightarrow> if c = CHR ''-'' then ([c], r) else ([], s)) of
        (sign, r0) \<Rightarrow>
          if takeWhile isDigit r0 = []
             \<or> (hd (takeWhile isDigit r0) = CHR ''0'' \<and> length (takeWhile isDigit r0) > 1)
          then None
          else
            (case lexFraction (dropWhile isDigit r0) of
               None \<Rightarrow> None
             | Some (frac, r1) \<Rightarrow>
                 (case lexExponent r1 of
                    None \<Rightarrow> None
                  | Some (ex, r2) \<Rightarrow> Some (sign @ takeWhile isDigit r0 @ frac @ ex, r2))))"

definition validNumber :: "string \<Rightarrow> bool" where
  "validNumber n = (scanNumber n = Some (n, []))"

text \<open>The characters a number is made of; a number ends where they end.\<close>

definition numChar :: "char \<Rightarrow> bool" where
  "numChar c = (isDigit c \<or> c \<in> set ''+-.eE'')"

definition unescape :: "char \<Rightarrow> char option" where
  "unescape e =
     (if e = CHR 0x22 \<or> e = CHR 0x5C \<or> e = CHR ''/'' then Some e
      else if e = CHR ''n'' then Some (CHR 0x0A)
      else if e = CHR ''t'' then Some (CHR 0x09)
      else if e = CHR ''r'' then Some (CHR 0x0D)
      else if e = CHR ''b'' then Some (CHR 0x08)
      else if e = CHR ''f'' then Some (CHR 0x0C)
      else None)"

text \<open>
  The characters after an opening quote, up to the closing one. A control character is
  not allowed in a string.
\<close>

fun lexString :: "string \<Rightarrow> string \<Rightarrow> (string \<times> string) option" where
  "lexString [] acc = None"
| "lexString [c] acc = (if c = CHR 0x22 then Some (acc, []) else None)"
| "lexString (c # e # cs) acc =
     (if c = CHR 0x22 then Some (acc, e # cs)
      else if c = CHR 0x5C then
        (if e = CHR ''u'' then
           (if 4 \<le> length cs \<and> list_all isHex (take 4 cs)
            then lexString (drop 4 cs) (acc @ [c, e] @ take 4 cs)
            else None)
         else
           (case unescape e of None \<Rightarrow> None | Some x \<Rightarrow> lexString cs (acc @ [x])))
      else if (of_char c :: nat) < 32 then None
      else lexString (e # cs) (acc @ [c]))"

text \<open>The token at the start of a text that does not start with whitespace.\<close>

definition lexToken :: "string \<Rightarrow> (token \<times> string) option" where
  "lexToken s =
     (case s of
        [] \<Rightarrow> None
      | c # cs \<Rightarrow>
          if c = CHR ''{'' then Some (TLBrace, cs)
          else if c = CHR ''}'' then Some (TRBrace, cs)
          else if c = CHR ''['' then Some (TLBracket, cs)
          else if c = CHR '']'' then Some (TRBracket, cs)
          else if c = CHR '':'' then Some (TColon, cs)
          else if c = CHR '','' then Some (TComma, cs)
          else if c = CHR 0x22 then
            (case lexString cs [] of
               None \<Rightarrow> None
             | Some (str, rest) \<Rightarrow> Some (TString str, rest))
          else if c = CHR ''-'' \<or> isDigit c then
            (if validNumber (takeWhile numChar s)
             then Some (TNumber (takeWhile numChar s), dropWhile numChar s)
             else None)
          else if c = CHR ''t'' \<and> take 3 cs = ''rue'' then Some (TTrue, drop 3 cs)
          else if c = CHR ''f'' \<and> take 4 cs = ''alse'' then Some (TFalse, drop 4 cs)
          else if c = CHR ''n'' \<and> take 3 cs = ''ull'' then Some (TNull, drop 3 cs)
          else None)"

function lex :: "string \<Rightarrow> token list option" where
  "lex [] = Some []"
| "lex (c # cs) =
     (if isSpace c then lex cs
      else
        (case lexToken (c # cs) of
           None \<Rightarrow> None
         | Some (t, rest) \<Rightarrow> map_option ((#) t) (lex rest)))"
  by pat_completeness auto
termination
proof -
  have str: "length rest \<le> length cs" if "lexString cs acc = Some (s, rest)" for cs acc s rest
    using that
    by (induction cs acc rule: lexString.induct)
       (auto split: if_splits option.splits)
  have tok: "length rest < length s" if "lexToken s = Some (t, rest)" for s t rest
  proof (cases s)
    case Nil
    with that show ?thesis by (simp add: lexToken_def)
  next
    case (Cons c cs)
    have num: "length (dropWhile numChar (c # cs)) \<le> length cs" if "c = CHR ''-'' \<or> isDigit c"
      using that length_dropWhile_le [of numChar cs] by (auto simp: numChar_def)
    from that Cons str [of cs "[]"] num show ?thesis
      by (auto simp: lexToken_def less_Suc_eq_le split: if_splits option.splits)
  qed
  show ?thesis
    by (relation "measure length") (auto dest!: tok)
qed

text \<open>
  Recursive descent over the tokens. The first argument bounds the depth of the calls;
  \<open>parseElements\<close> reads the elements of an array after its opening bracket,
  \<open>parseMembers\<close> the members of an object after its opening brace.
\<close>

fun parseValue :: "nat \<Rightarrow> token list \<Rightarrow> (json \<times> token list) option"
  and parseElements :: "nat \<Rightarrow> token list \<Rightarrow> (json list \<times> token list) option"
  and parseMembers :: "nat \<Rightarrow> token list \<Rightarrow> ((string \<times> json) list \<times> token list) option" where
  "parseValue 0 ts = None"
| "parseValue (Suc n) [] = None"
| "parseValue (Suc n) (TNull # ts) = Some (JNull, ts)"
| "parseValue (Suc n) (TTrue # ts) = Some (JBool True, ts)"
| "parseValue (Suc n) (TFalse # ts) = Some (JBool False, ts)"
| "parseValue (Suc n) (TNumber lit # ts) = Some (JNumber lit, ts)"
| "parseValue (Suc n) (TString s # ts) = Some (JString s, ts)"
| "parseValue (Suc n) (TLBracket # ts) =
     (case ts of
        TRBracket # ts' \<Rightarrow> Some (JArray [], ts')
      | _ \<Rightarrow> (case parseElements n ts of
                None \<Rightarrow> None
              | Some (vs, ts') \<Rightarrow> Some (JArray vs, ts')))"
| "parseValue (Suc n) (TLBrace # ts) =
     (case ts of
        TRBrace # ts' \<Rightarrow> Some (JObject [], ts')
      | _ \<Rightarrow> (case parseMembers n ts of
                None \<Rightarrow> None
              | Some (ms, ts') \<Rightarrow> Some (JObject ms, ts')))"
| "parseValue (Suc n) (TRBrace # ts) = None"
| "parseValue (Suc n) (TRBracket # ts) = None"
| "parseValue (Suc n) (TColon # ts) = None"
| "parseValue (Suc n) (TComma # ts) = None"
| "parseElements 0 ts = None"
| "parseElements (Suc n) ts =
     (case parseValue n ts of
        None \<Rightarrow> None
      | Some (v, ts') \<Rightarrow>
          (case ts' of
             TRBracket # ts'' \<Rightarrow> Some ([v], ts'')
           | TComma # ts'' \<Rightarrow>
               (case parseElements n ts'' of
                  None \<Rightarrow> None
                | Some (vs, ts''') \<Rightarrow> Some (v # vs, ts'''))
           | _ \<Rightarrow> None))"
| "parseMembers 0 ts = None"
| "parseMembers (Suc n) ts =
     (case ts of
        TString k # TColon # ts1 \<Rightarrow>
          (case parseValue n ts1 of
             None \<Rightarrow> None
           | Some (v, ts') \<Rightarrow>
               (case ts' of
                  TRBrace # ts'' \<Rightarrow> Some ([(k, v)], ts'')
                | TComma # ts'' \<Rightarrow>
                    (case parseMembers n ts'' of
                       None \<Rightarrow> None
                     | Some (ms, ts''') \<Rightarrow> Some ((k, v) # ms, ts'''))
                | _ \<Rightarrow> None))
      | _ \<Rightarrow> None)"

definition parseJSON :: "string \<Rightarrow> json option" where
  "parseJSON s =
     (case lex s of
        None \<Rightarrow> None
      | Some ts \<Rightarrow>
          (case parseValue (Suc (length ts)) ts of
             Some (v, []) \<Rightarrow> Some v
           | _ \<Rightarrow> None))"

text \<open>
  The decoded value in a form in which equal Go values are equal terms: the members of an
  object with one value for each key, the last one, and sorted by key.
\<close>

fun lastWins :: "(string \<times> json) list \<Rightarrow> (string \<times> json) list \<Rightarrow> (string \<times> json) list" where
  "lastWins [] acc = acc"
| "lastWins ((k, v) # ms) acc = lastWins ms (AList.update k v acc)"

fun canonical :: "json \<Rightarrow> json" where
  "canonical (JArray vs) = JArray (map canonical vs)"
| "canonical (JObject ms) =
     JObject (sort_key fst (lastWins (map (\<lambda>(k, v). (k, canonical v)) ms) []))"
| "canonical v = v"

definition suppressEquivalentJSONDiffs ::
  "string \<Rightarrow> string \<Rightarrow> string \<Rightarrow> resourceData \<Rightarrow> bool" where
  "suppressEquivalentJSONDiffs k old new d =
     (case (parseJSON old, parseJSON new) of
        (Some a, Some b) \<Rightarrow> canonical a = canonical b
      | _ \<Rightarrow> False)"

subsection \<open>The schema of the resource\<close>

type_synonym leafSchema = "unit schema"

type_synonym blockSchema = "((string \<times> leafSchema) list) schema"

type_synonym resourceSchema = "((string \<times> blockSchema) list) schema"

text \<open>The nested resources of the schema, innermost first.\<close>

definition headersTemplateSchema :: "(string \<times> leafSchema) list" where
  "headersTemplateSchema =
     [(''name'', Schema\<lparr>Type := TypeString, Required := True\<rparr>),
      (''value'', Schema\<lparr>Type := TypeString, Required := True\<rparr>)]"

definition customWebhookTemplateSchema :: "(string \<times> blockSchema) list" where
  "customWebhookTemplateSchema =
     [(''id'', Schema\<lparr>Type := TypeString, Computed := True\<rparr>),
      (''http_method'', Schema\<lparr>Type := TypeString, Optional := True, Default := VString ''post''\<rparr>),
      (''auth_username'', Schema\<lparr>Type := TypeString, Optional := True\<rparr>),
      (''auth_password'', Schema\<lparr>Type := TypeString, Optional := True, Sensitive := True\<rparr>),
      (''headers_template'',
         Schema\<lparr>Type := TypeList, Optional := True, Elem := Some headersTemplateSchema\<rparr>),
      (''body_template'',
         Schema\<lparr>Type := TypeString, Optional := True,
                DiffSuppressFunc := Some suppressEquivalentJSONDiffs\<rparr>)]"

definition outgoingWebhookSchema :: "(string \<times> resourceSchema) list" where
  "outgoingWebhookSchema =
     [(''team_name'',
         Schema\<lparr>Type := TypeString, Optional := True, Default := VNil,
                DiffSuppressFunc := Some (\<lambda>k old new d. d_Id d \<noteq> [])\<rparr>),
      (''id'', Schema\<lparr>Type := TypeString, Computed := True\<rparr>),
      (''name'', Schema\<lparr>Type := TypeString, Optional := True\<rparr>),
      (''url'', Schema\<lparr>Type := TypeString, Required := True\<rparr>),
      (''trigger_type'',
         Schema\<lparr>Type := TypeString, Required := True, ForceNew := True,
                ValidateFunc := Some (StringInSlice
                  [''incident_change'', ''on_call_change'', ''monitor_change''] False)\<rparr>),
      (''on_incident_started'', Schema\<lparr>Type := TypeBool, Optional := True, Default := VBool False\<rparr>),
      (''on_incident_acknowledged'', Schema\<lparr>Type := TypeBool, Optional := True, Default := VBool False\<rparr>),
      (''on_incident_resolved'', Schema\<lparr>Type := TypeBool, Optional := True, Default := VBool False\<rparr>),
      (''custom_webhook_template_attributes'',
         Schema\<lparr>Type := TypeList, Optional := True, MaxItems := 1,
                Elem := Some customWebhookTemplateSchema\<rparr>)]"

text \<open>The attribute types that a \<open>ResourceData\<close> of this resource carries.\<close>

definition outgoingWebhookTypes :: "string \<rightharpoonup> valueType" where
  "outgoingWebhookTypes = map_of (map (\<lambda>(k, s). (k, Type s)) outgoingWebhookSchema)"

subsection \<open>The CRUD handlers\<close>

text \<open>
  The helpers \<open>resourceCreate\<close>, \<open>resourceRead\<close>, \<open>resourceUpdate\<close> and
  \<open>resourceDelete\<close> of the repository are not among the sources; they send one request
  to the remote service through \<open>meta\<close>. The handlers take them as parameters, applied
  to \<open>ctx\<close> and \<open>meta\<close>: \<open>resourceCreate\<close> gives the diagnostics (\<open>Inl\<close>) or
  the decoded response, \<open>resourceRead\<close> the diagnostics (\<open>None\<close> is nil), the
  \<open>ok\<close> flag and the decoded response.
\<close>

record remote =
  resourceCreate :: "string \<Rightarrow> outgoingWebhook \<Rightarrow> diagnostics + outgoingWebhookHTTPResponse"
  resourceRead :: "string \<Rightarrow> diagnostics option \<times> bool \<times> outgoingWebhookHTTPResponse"
  resourceUpdate :: "string \<Rightarrow> outgoingWebhook \<Rightarrow> diagnostics"
  resourceDelete :: "string \<Rightarrow> diagnostics"

text \<open>\<open>url.PathEscape\<close> of the standard library.\<close>

definition shouldEscape :: "char \<Rightarrow> bool" where
  "shouldEscape c =
     (\<not> ((97 \<le> (of_char c :: nat) \<and> (of_char c :: nat) \<le> 122)
         \<or> (65 \<le> (of_char c :: nat) \<and> (of_char c :: nat) \<le> 90)
         \<or> (48 \<le> (of_char c :: nat) \<and> (of_char c :: nat) \<le> 57)
         \<or> c \<in> set ''-_.~$&+:=@''))"

definition PathEscape :: "string \<Rightarrow> string" where
  "PathEscape s = concat (map (\<lambda>c.
     if shouldEscape c
     then [CHR ''%'', ''0123456789ABCDEF'' ! ((of_char c :: nat) div 16),
           ''0123456789ABCDEF'' ! ((of_char c :: nat) mod 16)]
     else [c]) s)"

definition webhookPath :: "resourceData \<Rightarrow> string" where
  "webhookPath d = ''/api/v2/outgoing-webhooks/'' @ PathEscape (d_Id d)"

text \<open>The loop of \<open>outgoingWebhookCreate\<close> over the references.\<close>

fun loadRefs ::
  "resourceData \<Rightarrow> (string \<times> fieldptr) list \<Rightarrow> outgoingWebhook \<Rightarrow> outgoingWebhook option" where
  "loadRefs d [] w = Some w"
| "loadRefs d ((k, v) # es) w =
     (case load d k v w of None \<Rightarrow> None | Some w' \<Rightarrow> loadRefs d es w')"

text \<open>
  The statements that build the template from the first block, the same in
  \<open>outgoingWebhookCreate\<close> and \<open>outgoingWebhookUpdate\<close>. The block holds every
  attribute with its declared type, so each of the assertions with \<open>ok\<close> succeeds.
  The assertions \<open>h.(map[string]interface{})\<close> on the elements of \<open>headers_template\<close>
  and \<open>v.([]interface{})[0].(map[string]interface{})\<close> on the block have no \<open>ok\<close>
  result: on nil they panic (\<open>None\<close>).
\<close>

fun headersOf :: "headerBlock option list \<Rightarrow> headerTemplate list option" where
  "headersOf [] = Some []"
| "headersOf (None # headers) = None"
| "headersOf (Some header # headers) =
     map_option ((#) \<lparr>HeaderName = hb_name header, HeaderValue = hb_value header\<rparr>)
       (headersOf headers)"

definition templateOfAttrs :: "templateBlock \<Rightarrow> customWebhookTemplateAttributes option" where
  "templateOfAttrs attrs =
     (case headersOf (tb_headers_template attrs) of
        None \<Rightarrow> None
      | Some headers \<Rightarrow>
          Some (zeroTemplate\<lparr>
            HTTPMethod := Some (tb_http_method attrs),
            AuthUsername := Some (tb_auth_username attrs),
            AuthPassword := Some (tb_auth_password attrs),
            HeaderTemplate := headers,
            BodyTemplate := Some (JString (tb_body_template attrs))\<rparr>))"

definition loadTemplate :: "resourceData \<Rightarrow> outgoingWebhook \<Rightarrow> outgoingWebhook option" where
  "loadTemplate d w =
     (case d_GetOk d ''custom_webhook_template_attributes'' of
        (v, True) \<Rightarrow>
          (case v of
             VList [] \<Rightarrow> Some w
           | VList (EBlock attrs # rest) \<Rightarrow>
               (case templateOfAttrs attrs of
                  None \<Rightarrow> None
                | Some template \<Rightarrow>
                    Some (w\<lparr>CustomWebhookTemplateAttributes := Some template\<rparr>))
           | _ \<Rightarrow> None)
      | (v, False) \<Rightarrow> Some w)"

text \<open>The request that \<open>outgoingWebhookCreate\<close> sends.\<close>

definition outgoingWebhookCreateRequest :: "resourceData \<Rightarrow> outgoingWebhook option" where
  "outgoingWebhookCreateRequest d =
     (case d_Get d ''trigger_type'' of
        VString triggerType \<Rightarrow>
          (case loadRefs d (outgoingWebhookRef triggerType) zeroOutgoingWebhook of
             None \<Rightarrow> None
           | Some w1 \<Rightarrow>
               (case load d ''team_name'' PtrTeamName w1 of
                  None \<Rightarrow> None
                | Some w2 \<Rightarrow> loadTemplate d w2))
      | _ \<Rightarrow> None)"

text \<open>The loop of \<open>outgoingWebhookCopyAttrs\<close> over the references.\<close>

fun copyRefs ::
  "(string \<times> fieldptr) list \<Rightarrow> outgoingWebhook \<Rightarrow> resourceData \<Rightarrow> diagnostics
   \<Rightarrow> diagnostics \<times> resourceData" where
  "copyRefs [] w d derr = (derr, d)"
| "copyRefs ((k, v) # es) w d derr =
     (case d_Set d k (deref v w) of
        (None, d') \<Rightarrow> copyRefs es w d' derr
      | (Some err, d') \<Rightarrow> copyRefs es w d' (derr @ [hd (FromErr err)]))"

text \<open>
  The map that \<open>outgoingWebhookCopyAttrs\<close> builds for the block (\<open>templateMapOf\<close>;
  \<open>headers_template\<close> is a key of it only when there are headers), and what
  \<open>d.Set\<close> stores for such a map:
  a nil pointer or interface as the zero value, a \<open>body_template\<close> that is not a string
  as an error.
\<close>

record templateMap =
  tm_id :: "string option"
  tm_http_method :: "string option"
  tm_auth_username :: "string option"
  tm_auth_password :: "string option"
  tm_body_template :: "json option"
  tm_headers_template :: "headerBlock list option"

definition orEmpty :: "string option \<Rightarrow> string" where
  "orEmpty p = (case p of None \<Rightarrow> [] | Some s \<Rightarrow> s)"

definition blockOfMap :: "templateMap \<Rightarrow> string + templateBlock" where
  "blockOfMap m =
     (case (case tm_body_template m of
              None \<Rightarrow> Some []
            | Some (JString s) \<Rightarrow> Some s
            | Some _ \<Rightarrow> None) of
        None \<Rightarrow> Inl ''custom_webhook_template_attributes.0.body_template: expected type string''
      | Some body \<Rightarrow>
          Inr \<lparr>tb_id = orEmpty (tm_id m),
               tb_http_method = orEmpty (tm_http_method m),
               tb_auth_username = orEmpty (tm_auth_username m),
               tb_auth_password = orEmpty (tm_auth_password m),
               tb_headers_template =
                 (case tm_headers_template m of None \<Rightarrow> [] | Some hs \<Rightarrow> map Some hs),
               tb_body_template = body\<rparr>)"

definition d_SetTemplate :: "resourceData \<Rightarrow> string \<Rightarrow> templateMap \<Rightarrow> string option \<times> resourceData" where
  "d_SetTemplate d k m =
     (case blockOfMap m of
        Inl err \<Rightarrow> (Some err, d)
      | Inr b \<Rightarrow> d_Set d k (VList [EBlock b]))"

definition templateMapOf :: "customWebhookTemplateAttributes \<Rightarrow> templateMap" where
  "templateMapOf t =
     \<lparr>tm_id = TemplateID t,
      tm_http_method = HTTPMethod t,
      tm_auth_username = AuthUsername t,
      tm_auth_password = AuthPassword t,
      tm_body_template = BodyTemplate t,
      tm_headers_template =
        (if length (HeaderTemplate t) > 0
         then Some (map (\<lambda>h. \<lparr>hb_name = HeaderName h, hb_value = HeaderValue h\<rparr>)
                      (HeaderTemplate t))
         else None)\<rparr>"

definition outgoingWebhookCopyAttrs :: "resourceData \<Rightarrow> outgoingWebhook \<Rightarrow> diagnostics \<times> resourceData" where
  "outgoingWebhookCopyAttrs d w =
     (let triggerType = (case TriggerType w of None \<Rightarrow> [] | Some t \<Rightarrow> t) in
      case copyRefs (outgoingWebhookRef triggerType) w d [] of
        (derr, d1) \<Rightarrow>
          (case CustomWebhookTemplateAttributes w of
             None \<Rightarrow> (derr, d1)
           | Some t \<Rightarrow>
               (case d_SetTemplate d1 ''custom_webhook_template_attributes'' (templateMapOf t) of
                  (None, d2) \<Rightarrow> (derr, d2)
                | (Some err, d2) \<Rightarrow> (derr @ [hd (FromErr err)], d2))))"

text \<open>
  A handler returns its diagnostics (the empty list is nil) and the record; \<open>None\<close> is a
  panic of a type assertion.
\<close>

definition outgoingWebhookCreate :: "remote \<Rightarrow> resourceData \<Rightarrow> (diagnostics \<times> resourceData) option" where
  "outgoingWebhookCreate meta d =
     (case outgoingWebhookCreateRequest d of
        None \<Rightarrow> None
      | Some w \<Rightarrow>
          (case resourceCreate meta ''/api/v2/outgoing-webhooks'' w of
             Inl err \<Rightarrow> Some (err, d)
           | Inr out \<Rightarrow>
               Some (outgoingWebhookCopyAttrs (d_SetId d (DataID out)) (DataAttributes out))))"

definition outgoingWebhookRead :: "remote \<Rightarrow> resourceData \<Rightarrow> diagnostics \<times> resourceData" where
  "outgoingWebhookRead meta d =
     (case resourceRead meta (webhookPath d) of
        (Some err, ok, out) \<Rightarrow> (err, d)
      | (None, ok, out) \<Rightarrow>
          if \<not> ok then ([], d_SetId d [])
          else outgoingWebhookCopyAttrs d (DataAttributes out))"

text \<open>The loop of \<open>outgoingWebhookUpdate\<close> over the references.\<close>

fun loadChangedRefs ::
  "resourceData \<Rightarrow> (string \<times> fieldptr) list \<Rightarrow> outgoingWebhook \<Rightarrow> outgoingWebhook option" where
  "loadChangedRefs d [] w = Some w"
| "loadChangedRefs d ((k, v) # es) w =
     (if d_HasChange d k
      then (case load d k v w of None \<Rightarrow> None | Some w' \<Rightarrow> loadChangedRefs d es w')
      else loadChangedRefs d es w)"

text \<open>The request that \<open>outgoingWebhookUpdate\<close> sends.\<close>

definition outgoingWebhookUpdateRequest :: "resourceData \<Rightarrow> outgoingWebhook option" where
  "outgoingWebhookUpdateRequest d =
     (case d_Get d ''trigger_type'' of
        VString triggerType \<Rightarrow>
          (case loadChangedRefs d (outgoingWebhookRef triggerType) zeroOutgoingWebhook of
             None \<Rightarrow> None
           | Some w1 \<Rightarrow>
               if d_HasChange d ''custom_webhook_template_attributes''
               then loadTemplate d w1 else Some w1)
      | _ \<Rightarrow> None)"

definition outgoingWebhookUpdate :: "remote \<Rightarrow> resourceData \<Rightarrow> diagnostics option" where
  "outgoingWebhookUpdate meta d =
     (case outgoingWebhookUpdateRequest d of
        None \<Rightarrow> None
      | Some w \<Rightarrow> Some (resourceUpdate meta (webhookPath d) w))"

definition outgoingWebhookDelete :: "remote \<Rightarrow> resourceData \<Rightarrow> diagnostics" where
  "outgoingWebhookDelete meta d = resourceDelete meta (webhookPath d)"

section \<open>Notions used in the properties\<close>

text \<open>The error of plan-time validation for an incident field.\<close>

definition incidentError :: "string \<Rightarrow> string" where
  "incidentError field = field @ '' can only be set when trigger_type is ''
                                   @ [CHR 0x27] @ ''incident_change'' @ [CHR 0x27]"

text \<open>
  Two decoded JSON values that differ in the order of the members of their objects only.
\<close>

inductive sameJSON :: "json \<Rightarrow> json \<Rightarrow> bool" where
  same: "sameJSON v v"
| array: "list_all2 sameJSON vs ws \<Longrightarrow> sameJSON (JArray vs) (JArray ws)"
| object:
    "distinct (map fst ms) \<Longrightarrow> map fst ms = map fst ns' \<Longrightarrow>
     list_all2 sameJSON (map snd ms) (map snd ns') \<Longrightarrow> mset ns' = mset ns \<Longrightarrow>
     sameJSON (JObject ms) (JObject ns)"

text \<open>
  A boundary between tokens: \<open>splitsAt p r\<close> holds when the text \<open>p @ r\<close>, read from its
  start, falls into whitespace and whole tokens of which the last one ends where \<open>p\<close>
  ends.
\<close>

inductive splitsAt :: "string \<Rightarrow> string \<Rightarrow> bool" where
  start: "splitsAt [] r"
| space: "isSpace c \<Longrightarrow> splitsAt p r \<Longrightarrow> splitsAt (c # p) r"
| token: "lexToken (raw @ p @ r) = Some (t, p @ r) \<Longrightarrow> splitsAt p r \<Longrightarrow> splitsAt (raw @ p) r"

text \<open>
  Two JSON texts that are semantically equivalent: they decode to values that differ in
  the order of the members of their objects only, or one has whitespace at a boundary
  between tokens where the other has none, or they are linked by a chain of such pairs.
\<close>

inductive equivalentJSON :: "string \<Rightarrow> string \<Rightarrow> bool" where
  members:
    "parseJSON old = Some a \<Longrightarrow> parseJSON new = Some b \<Longrightarrow> sameJSON a b \<Longrightarrow>
     equivalentJSON old new"
| whitespace:
    "parseJSON (p @ r) = Some a \<Longrightarrow> splitsAt p r \<Longrightarrow> list_all isSpace w \<Longrightarrow>
     equivalentJSON (p @ r) (p @ w @ r)"
| sym: "equivalentJSON old new \<Longrightarrow> equivalentJSON new old"
| trans: "equivalentJSON old mid \<Longrightarrow> equivalentJSON mid new \<Longrightarrow> equivalentJSON old new"

text \<open>
  Modelled from the spec: \<open>ipListSchema\<close>, which is not among the sources. The spec
  gives the data lookup the input \<open>filter_clusters\<close> (a list of strings) and the outputs
  \<open>ips\<close> and \<open>all_clusters\<close> (lists).
\<close>

definition ipListTypes :: "string \<rightharpoonup> valueType" where
  "ipListTypes = map_of [(''filter_clusters'', TypeList), (''ips'', TypeList),
                         (''all_clusters'', TypeList)]"

subsection \<open>Example inputs\<close>

definition exampleIpData :: "(string \<times> string list) list" where
  "exampleIpData = [(''us'', [''192.0.2.1'', ''192.0.2.2'']), (''eu'', [''198.51.100.7'']),
                    (''asia'', [])]"

definition exampleBody :: string where
  \<open>exampleBody = ''{"us":["192.0.2.1","192.0.2.2"],"eu":["198.51.100.7"],"asia":[]}''\<close>

definition exampleUnmarshal :: unmarshal where
  "exampleUnmarshal body =
     (if body = exampleBody then Inr exampleIpData else Inl ''invalid character'')"

definition exampleResponse :: "int \<Rightarrow> string \<Rightarrow> response" where
  "exampleResponse code body =
     \<lparr>StatusCode = code, RequestURL = ''https://uptime.betterstack.com/ips-by-cluster.json'',
      Body = Inr body\<rparr>"

definition exampleClient :: "(string + response) \<Rightarrow> client" where
  "exampleClient r = \<lparr>transport = [r], requested = []\<rparr>"

definition exampleLookup :: "string list \<Rightarrow> resourceData" where
  "exampleLookup filter_clusters =
     \<lparr>rd_types = ipListTypes, rd_id = [], rd_state = Map.empty,
      rd_plan = [''filter_clusters'' \<mapsto> VList (map EString filter_clusters)],
      rd_set = Map.empty\<rparr>"

text \<open>
  The record of a lookup with \<open>filter_clusters = [""]\<close>: the SDK hands the empty string
  over as a nil element.
\<close>

definition exampleNilLookup :: resourceData where
  "exampleNilLookup =
     \<lparr>rd_types = ipListTypes, rd_id = [], rd_state = Map.empty,
      rd_plan = [''filter_clusters'' \<mapsto> VList [ENil]],
      rd_set = Map.empty\<rparr>"

definition exampleBlock :: templateBlock where
  "exampleBlock =
     \<lparr>tb_id = [], tb_http_method = ''post'', tb_auth_username = ''ops'',
      tb_auth_password = ''secret'',
      tb_headers_template =
        [Some \<lparr>hb_name = ''Content-Type'', hb_value = ''application/json''\<rparr>],
      tb_body_template = ''{}''\<rparr>"

definition exampleWebhook :: "string \<Rightarrow> bool \<Rightarrow> resourceData" where
  "exampleWebhook triggerType started =
     \<lparr>rd_types = outgoingWebhookTypes, rd_id = [], rd_state = Map.empty,
      rd_plan = map_of
        [(''name'', VString ''pager''),
         (''url'', VString ''https://example.com/hook''),
         (''trigger_type'', VString triggerType),
         (''on_incident_started'', VBool started),
         (''on_incident_acknowledged'', VBool False),
         (''on_incident_resolved'', VBool False),
         (''custom_webhook_template_attributes'', VList [EBlock exampleBlock])],
      rd_set = Map.empty\<rparr>"

text \<open>An existing webhook whose name is about to change.\<close>

definition exampleRename :: resourceData where
  "exampleRename =
     (exampleWebhook ''incident_change'' True)
       \<lparr>rd_id := ''42'',
        rd_state := (rd_plan (exampleWebhook ''incident_change'' True))(''name'' \<mapsto> VString ''old'')\<rparr>"


text \<open>A remote service on which the webhook no longer exists.\<close>

definition goneRemote :: remote where
  "goneRemote =
     \<lparr>resourceCreate = (\<lambda>path w. Inl [Diagnostic ''gone'']),
      resourceRead = (\<lambda>path. (None, False, \<lparr>DataID = [], DataAttributes = zeroOutgoingWebhook\<rparr>)),
      resourceUpdate = (\<lambda>path w. [Diagnostic ''gone'']),
      resourceDelete = (\<lambda>path. [])\<rparr>"

text \<open>A remote service that cannot be reached.\<close>

definition errorRemote :: remote where
  "errorRemote =
     \<lparr>resourceCreate = (\<lambda>path w. Inl [Diagnostic ''connection refused'']),
      resourceRead = (\<lambda>path. (Some [Diagnostic ''connection refused''], False,
                              \<lparr>DataID = [], DataAttributes = zeroOutgoingWebhook\<rparr>)),
      resourceUpdate = (\<lambda>path w. [Diagnostic ''connection refused'']),
      resourceDelete = (\<lambda>path. [Diagnostic ''connection refused''])\<rparr>"

text \<open>The request that creating \<open>exampleWebhook ''incident_change'' True\<close> sends.\<close>

definition exampleRequest :: outgoingWebhook where
  "exampleRequest =
     \<lparr>ID = None, Name = Some ''pager'', URL = Some ''https://example.com/hook'',
      TriggerType = Some ''incident_change'',
      OnIncidentStarted = Some True, OnIncidentAcknowledged = Some False,
      OnIncidentResolved = Some False,
      CustomWebhookTemplateAttributes = templateOfAttrs exampleBlock,
      TeamName = None\<rparr>"





section \<open>Properties of the IP list data source\<close>

lemma filterClustersOf_strings:
  "filterClustersOf (map EString cs) acc = Some (fold (\<lambda>c. AList.update c True) cs acc)"
  by (induction cs arbitrary: acc) simp_all

lemma update_fold_empty:
  "(fold (\<lambda>c. AList.update c True) cs acc = []) = (cs = [] \<and> acc = [])"
  by (induction cs arbitrary: acc) auto

lemma index_bool_fold:
  "index_bool (fold (\<lambda>c. AList.update c True) cs acc) k = (k \<in> set cs \<or> index_bool acc k)"
  by (induction cs arbitrary: acc) (auto simp: index_bool_def update_conv')

lemma filterLoop_eq:
  "filterLoop fc ipData (a, b) =
     (a @ concat (map snd (filter (\<lambda>e. length fc = 0 \<or> index_bool fc (fst e)) ipData)),
      b @ map fst ipData)"
  by (induction ipData arbitrary: a b) auto

text \<open>
  After a response with status 200 whose body decodes to the map \<open>ipData\<close>, for every
  order in which the map is visited and every \<open>filter_clusters\<close> whose elements are all
  strings: with an empty \<open>filter_clusters\<close> the attribute \<open>ips\<close> is the
  concatenation of the IP lists of all clusters; with a non-empty one it is the
  concatenation of the IP lists of exactly the clusters named in \<open>filter_clusters\<close>; in
  both cases \<open>all_clusters\<close> lists every cluster of the map, and no diagnostic is
  returned.
\<close>

lemma ipListLookup_strings:
  assumes get: "client_Get meta ''/ips-by-cluster.json'' = (Inr res, meta')"
    and ok: "StatusCode res = 200"
    and body: "Body res = Inr body"
    and json: "unmarshal body = Inr ipData"
    and req: "d_Get d ''filter_clusters'' = VList (map EString filter_clusters)"
    and ty: "rd_types d = ipListTypes"
  shows "\<exists>d'. ipListLookup unmarshal d meta = Some ([], d', meta')
    \<and> d_Get d' ''ips'' = VList (map EString
         (if filter_clusters = [] then concat (map snd ipData)
          else concat (map snd (filter (\<lambda>(cluster, ips). cluster \<in> set filter_clusters) ipData))))
    \<and> d_Get d' ''all_clusters'' = VList (map EString (map fst ipData))"
proof -
  define fc where "fc = fold (\<lambda>c. AList.update c True) filter_clusters []"
  define ips where "ips = concat (map snd (filter (\<lambda>e. length fc = 0 \<or> index_bool fc (fst e)) ipData))"
  define alls where "alls = map fst ipData"
  define d1 where "d1 = d_SetId d ''betterstack_ip_list''"
  define d2 where "d2 = d1\<lparr>rd_set := (rd_set d1)(''ips'' \<mapsto> VList (map EString ips))\<rparr>"
  define d3 where "d3 = d2\<lparr>rd_set := (rd_set d2)(''all_clusters'' \<mapsto> VList (map EString alls))\<rparr>"
  have fcs: "filterClustersOf (map EString filter_clusters) [] = Some fc"
    by (simp add: filterClustersOf_strings fc_def)
  have loop: "filterLoop fc ipData ([], []) = (ips, alls)"
    by (simp add: filterLoop_eq ips_def alls_def)
  have s1: "d_Set d1 ''ips'' (VList (map EString ips)) = (None, d2)"
    using ty by (simp add: d_Set_def d_SetId_def d1_def d2_def ipListTypes_def)
  have s2: "d_Set d2 ''all_clusters'' (VList (map EString alls)) = (None, d3)"
    using ty by (simp add: d_Set_def d_SetId_def d1_def d2_def d3_def ipListTypes_def)
  have run: "ipListLookup unmarshal d meta = Some ([], d3, meta')"
    by (simp add: ipListLookup_def get ok body json req fcs loop s1 s2 StatusOK_def
        flip: d1_def)
  have sel: "(\<lambda>e. length fc = 0 \<or> index_bool fc (fst e))
               = (\<lambda>e. filter_clusters = [] \<or> fst e \<in> set filter_clusters)"
    by (rule ext) (simp add: fc_def update_fold_empty index_bool_fold, simp add: index_bool_def)
  have ips: "ips = (if filter_clusters = [] then concat (map snd ipData)
          else concat (map snd (filter (\<lambda>(cluster, ips). cluster \<in> set filter_clusters) ipData)))"
    unfolding ips_def sel by (auto simp: case_prod_unfold)
  have g1: "d_Get d3 ''ips'' = VList (map EString ips)"
    by (simp add: d_Get_def merged_def d3_def d2_def)
  have g2: "d_Get d3 ''all_clusters'' = VList (map EString alls)"
    by (simp add: d_Get_def merged_def d3_def)
  show ?thesis
    using run g1 g2 ips by (intro exI[of _ d3]) (simp add: alls_def)
qed

text \<open>An element of \<open>filter_clusters\<close> that is nil makes the handler panic.\<close>

lemma filterClustersOf_nil: "ENil \<in> set cs \<Longrightarrow> filterClustersOf cs acc = None"
proof (induction cs arbitrary: acc)
  case Nil
  then show ?case by simp
next
  case (Cons c cs)
  then show ?case by (cases c) auto
qed

lemma ipListLookup_nil:
  assumes get: "client_Get meta ''/ips-by-cluster.json'' = (Inr res, meta')"
    and ok: "StatusCode res = 200"
    and body: "Body res = Inr body"
    and json: "unmarshal body = Inr ipData"
    and req: "d_Get d ''filter_clusters'' = VList requestedClusters"
    and nil: "ENil \<in> set requestedClusters"
  shows "ipListLookup unmarshal d meta = None"
  by (simp add: ipListLookup_def get ok body json req filterClustersOf_nil [OF nil] StatusOK_def)

text \<open>
  C3. The outputs are not as stated for every \<open>filter_clusters\<close>. For
  \<open>filter_clusters = [""]\<close>, whose element the SDK hands over as nil, and a response
  with status 200 that decodes to three clusters, the claim has \<open>ips\<close> empty (no cluster
  is named by the empty string) and \<open>all_clusters\<close> list the three clusters; the handler
  panics in \<open>cluster.(string)\<close> and writes nothing. For a list of strings the outputs
  are as stated (\<open>ipListLookup_strings\<close>).
\<close>

theorem ipListLookup_nil_cluster:
  "d_Get exampleNilLookup ''filter_clusters'' = VList [ENil]
   \<and> exampleUnmarshal exampleBody = Inr exampleIpData
   \<and> ipListLookup exampleUnmarshal exampleNilLookup
         (exampleClient (Inr (exampleResponse 200 exampleBody))) = None"
  by (simp add: ipListLookup_def client_Get_def exampleClient_def exampleResponse_def
      StatusOK_def exampleUnmarshal_def exampleNilLookup_def d_Get_def merged_def)

text \<open>
  C4, as the code has it. The handler sends one request. A transport error and an error
  of reading the body are returned as a diagnostic that carries the message of that error.
  A response with a status code other than 200 is returned as the diagnostic
  \<open>GET <url> returned <code>: <body>\<close>, which holds the request URL, the status code and
  the response body. The record is not written in any of these cases. After a response
  with status 200 every diagnostic comes from decoding the body or from writing the record.
\<close>

theorem ipListLookup_errors:
  assumes get: "client_Get meta ''/ips-by-cluster.json'' = (r, meta')"
  shows "requested meta' = requested meta @ [''/ips-by-cluster.json'']
    \<and> (\<forall>err. r = Inl err \<longrightarrow> ipListLookup unmarshal d meta = Some (FromErr err, d, meta'))
    \<and> (\<forall>res err. r = Inr res \<and> Body res = Inl err \<longrightarrow>
          ipListLookup unmarshal d meta = Some (FromErr err, d, meta'))
    \<and> (\<forall>res body. r = Inr res \<and> Body res = Inr body \<and> StatusCode res \<noteq> 200 \<longrightarrow>
          ipListLookup unmarshal d meta =
            Some ([Diagnostic (''GET '' @ RequestURL res @ '' returned ''
                     @ fmt_int (StatusCode res) @ '': '' @ body)], d, meta')
          \<and> sublist (RequestURL res) (''GET '' @ RequestURL res @ '' returned ''
                     @ fmt_int (StatusCode res) @ '': '' @ body)
          \<and> sublist (fmt_int (StatusCode res)) (''GET '' @ RequestURL res @ '' returned ''
                     @ fmt_int (StatusCode res) @ '': '' @ body)
          \<and> sublist body (''GET '' @ RequestURL res @ '' returned ''
                     @ fmt_int (StatusCode res) @ '': '' @ body))
    \<and> (\<forall>res body diags d' m. r = Inr res \<and> Body res = Inr body \<and> StatusCode res = 200
          \<and> ipListLookup unmarshal d meta = Some (diags, d', m) \<and> diags \<noteq> [] \<longrightarrow>
          (\<exists>err. diags = FromErr err
             \<and> (unmarshal body = Inl err \<or> (\<exists>d0 k v. d_Set d0 k v = (Some err, d')))))"
proof (intro conjI allI impI)
  show "requested meta' = requested meta @ [''/ips-by-cluster.json'']"
    using get by (auto simp: client_Get_def split: list.splits)
next
  fix err assume "r = Inl err"
  then show "ipListLookup unmarshal d meta = Some (FromErr err, d, meta')"
    using get by (simp add: ipListLookup_def)
next
  fix res err assume "r = Inr res \<and> Body res = Inl err"
  then show "ipListLookup unmarshal d meta = Some (FromErr err, d, meta')"
    using get by (simp add: ipListLookup_def)
next
  fix res body assume a: "r = Inr res \<and> Body res = Inr body \<and> StatusCode res \<noteq> 200"
  then show "ipListLookup unmarshal d meta =
            Some ([Diagnostic (''GET '' @ RequestURL res @ '' returned ''
                     @ fmt_int (StatusCode res) @ '': '' @ body)], d, meta')"
    using get by (simp add: ipListLookup_def StatusOK_def)
  show "sublist (RequestURL res) (''GET '' @ RequestURL res @ '' returned ''
                     @ fmt_int (StatusCode res) @ '': '' @ body)"
    by (rule sublist_appendI)
  show "sublist (fmt_int (StatusCode res)) (''GET '' @ RequestURL res @ '' returned ''
                     @ fmt_int (StatusCode res) @ '': '' @ body)"
    using sublist_appendI [of "fmt_int (StatusCode res)" "''GET '' @ RequestURL res @ '' returned ''" "'': '' @ body"]
    by simp
  show "sublist body (''GET '' @ RequestURL res @ '' returned ''
                     @ fmt_int (StatusCode res) @ '': '' @ body)"
    using sublist_appendI [of body "''GET '' @ RequestURL res @ '' returned '' @ fmt_int (StatusCode res) @ '': ''" "[]"]
    by simp
next
  fix res body diags d' m
  assume a: "r = Inr res \<and> Body res = Inr body \<and> StatusCode res = 200
          \<and> ipListLookup unmarshal d meta = Some (diags, d', m) \<and> diags \<noteq> []"
  then have res: "r = Inr res" "Body res = Inr body" "StatusCode res = 200"
    and run: "ipListLookup unmarshal d meta = Some (diags, d', m)" and ne: "diags \<noteq> []"
    by simp_all
  show "\<exists>err. diags = FromErr err
             \<and> (unmarshal body = Inl err \<or> (\<exists>d0 k v. d_Set d0 k v = (Some err, d')))"
  proof (cases "unmarshal body")
    case (Inl err)
    with run res get have "diags = FromErr err"
      by (simp add: ipListLookup_def StatusOK_def)
    with Inl show ?thesis by blast
  next
    case (Inr ipData)
    from run res get Inr obtain requestedClusters filterClusters
      where rc: "d_Get d ''filter_clusters'' = VList requestedClusters"
        and fc: "filterClustersOf requestedClusters [] = Some filterClusters"
      by (auto simp: ipListLookup_def StatusOK_def split: val.splits option.splits)
    obtain filteredIPs allClusters
      where loop: "filterLoop filterClusters ipData ([], []) = (filteredIPs, allClusters)"
      by (cases "filterLoop filterClusters ipData ([], [])")
    define d1 where "d1 = d_SetId d ''betterstack_ip_list''"
    obtain e2 d2 where s1: "d_Set d1 ''ips'' (VList (map EString filteredIPs)) = (e2, d2)"
      by (cases "d_Set d1 ''ips'' (VList (map EString filteredIPs))")
    obtain e3 d3 where s2: "d_Set d2 ''all_clusters'' (VList (map EString allClusters)) = (e3, d3)"
      by (cases "d_Set d2 ''all_clusters'' (VList (map EString allClusters))")
    show ?thesis
    proof (cases e2)
      case (Some err)
      with run res get Inr rc fc loop s1 have "diags = FromErr err" "d' = d2"
        by (simp_all add: ipListLookup_def StatusOK_def flip: d1_def)
      with s1 Some show ?thesis by blast
    next
      case None
      show ?thesis
      proof (cases e3)
        case (Some err)
        with run res get Inr rc fc loop s1 s2 None have "diags = FromErr err" "d' = d3"
          by (simp_all add: ipListLookup_def StatusOK_def flip: d1_def)
        with s2 Some show ?thesis by blast
      next
        case n3: None
        with run res get Inr rc fc loop s1 s2 None have "diags = []"
          by (simp add: ipListLookup_def StatusOK_def flip: d1_def)
        with ne show ?thesis by simp
      qed
    qed
  qed
qed

theorem ipListLookup_errors_witness:
  "client_Get (exampleClient (Inr (exampleResponse 503 ''Service Unavailable'')))
       ''/ips-by-cluster.json''
     = (Inr (exampleResponse 503 ''Service Unavailable''),
        \<lparr>transport = [], requested = [''/ips-by-cluster.json'']\<rparr>)
   \<and> ipListLookup exampleUnmarshal (exampleLookup [])
         (exampleClient (Inr (exampleResponse 503 ''Service Unavailable'')))
     = Some ([Diagnostic
         ''GET https://uptime.betterstack.com/ips-by-cluster.json returned 503: Service Unavailable''],
         exampleLookup [], \<lparr>transport = [], requested = [''/ips-by-cluster.json'']\<rparr>)"
proof -
  have get: "client_Get (exampleClient (Inr (exampleResponse 503 ''Service Unavailable'')))
       ''/ips-by-cluster.json''
     = (Inr (exampleResponse 503 ''Service Unavailable''),
        \<lparr>transport = [], requested = [''/ips-by-cluster.json'']\<rparr>)"
    by (simp add: client_Get_def exampleClient_def)
  have h: "Inr (exampleResponse 503 ''Service Unavailable'') = Inr (exampleResponse 503 ''Service Unavailable'')
      \<and> Body (exampleResponse 503 ''Service Unavailable'') = Inr ''Service Unavailable''
      \<and> StatusCode (exampleResponse 503 ''Service Unavailable'') \<noteq> 200"
    by (simp add: exampleResponse_def)
  note all = ipListLookup_errors [OF get, of exampleUnmarshal "exampleLookup []"]
  note status = all [THEN conjunct2, THEN conjunct2, THEN conjunct2, THEN conjunct1,
      rule_format, OF h, THEN conjunct1]
  show ?thesis using status get by (simp add: exampleResponse_def fmt_int_def)
qed

text \<open>
  C4 as stated fails: a response with status 204, a 2xx code, is reported as an HTTP-status
  error, and the diagnostic of a transport error holds the message of the error only.
\<close>

theorem ipListLookup_errors_counterexample:
  "ipListLookup exampleUnmarshal (exampleLookup []) (exampleClient (Inr (exampleResponse 204 [])))
     = Some ([Diagnostic ''GET https://uptime.betterstack.com/ips-by-cluster.json returned 204: ''],
         exampleLookup [], \<lparr>transport = [], requested = [''/ips-by-cluster.json'']\<rparr>)
   \<and> ipListLookup exampleUnmarshal (exampleLookup []) (exampleClient (Inl ''connection refused''))
     = Some ([Diagnostic ''connection refused''],
         exampleLookup [], \<lparr>transport = [], requested = [''/ips-by-cluster.json'']\<rparr>)"
  by (simp add: ipListLookup_def client_Get_def exampleClient_def exampleResponse_def
      StatusOK_def fmt_int_def FromErr_def)

section \<open>Properties of the schema\<close>

text \<open>
  C6. The attribute \<open>trigger_type\<close> is required and forces a new resource when it
  changes, and its validator accepts exactly the strings \<open>incident_change\<close>,
  \<open>on_call_change\<close> and \<open>monitor_change\<close>: for every other string it returns an
  error.
\<close>

theorem trigger_type_schema:
  "\<exists>s validate. map_of outgoingWebhookSchema ''trigger_type'' = Some s
     \<and> Required s \<and> ForceNew s \<and> ValidateFunc s = Some validate
     \<and> (\<forall>v k. (validate (VString v) k = ([], []))
           = (v \<in> {''incident_change'', ''on_call_change'', ''monitor_change''}))
     \<and> (\<forall>v k. (snd (validate (VString v) k) = [])
           = (v \<in> {''incident_change'', ''on_call_change'', ''monitor_change''}))"
  by (simp add: outgoingWebhookSchema_def Schema_def StringInSlice_def)

theorem trigger_type_schema_witness:
  "\<exists>s validate. map_of outgoingWebhookSchema ''trigger_type'' = Some s
     \<and> Required s \<and> ForceNew s \<and> ValidateFunc s = Some validate
     \<and> validate (VString ''on_call_change'') ''trigger_type'' = ([], [])
     \<and> snd (validate (VString ''On_Call_Change'') ''trigger_type'') \<noteq> []"
  using trigger_type_schema
  apply (elim exE conjE)
  subgoal for s validate
    apply (rule exI [of _ s], rule exI [of _ validate])
    apply simp
    done
  done

text \<open>
  C10. The diff-suppression function of \<open>team_name\<close> returns true whenever the ID of the
  resource is not empty, whatever the old and the new value are: after creation a change
  of \<open>team_name\<close> produces no diff.
\<close>

theorem team_name_suppressed:
  "\<exists>s suppress. map_of outgoingWebhookSchema ''team_name'' = Some s
     \<and> DiffSuppressFunc s = Some suppress
     \<and> (\<forall>k old new d. d_Id d \<noteq> [] \<longrightarrow> suppress k old new d)"
  by (simp add: outgoingWebhookSchema_def Schema_def)

theorem team_name_suppressed_witness:
  "d_Id exampleRename \<noteq> []
   \<and> (\<exists>s suppress. map_of outgoingWebhookSchema ''team_name'' = Some s
        \<and> DiffSuppressFunc s = Some suppress
        \<and> suppress ''team_name'' ''platform'' ''payments'' exampleRename)"
proof -
  have id: "d_Id exampleRename \<noteq> []"
    by (simp add: exampleRename_def d_Id_def)
  from team_name_suppressed id show ?thesis
    apply (elim exE conjE)
    subgoal for s suppress
      apply (rule conjI, assumption)
      apply (rule exI [of _ s], rule exI [of _ suppress])
      apply simp
      done
    done
qed

subsection \<open>JSON equivalence\<close>

text \<open>
  The bound on the depth of the calls never cuts a parse short: more depth gives the same
  result, and a parse needs no more depth than the number of tokens it reads. So
  \<open>parseJSON\<close> decodes every text that the descent accepts at any depth.
\<close>

lemma parse_Suc_all:
  "(\<forall>ts r. parseValue n ts = Some r \<longrightarrow> parseValue (Suc n) ts = Some r)
   \<and> (\<forall>ts r. parseElements n ts = Some r \<longrightarrow> parseElements (Suc n) ts = Some r)
   \<and> (\<forall>ts r. parseMembers n ts = Some r \<longrightarrow> parseMembers (Suc n) ts = Some r)"
proof (induction n)
  case 0
  show ?case by simp
next
  case (Suc n)
  then have V: "\<And>ts r. parseValue n ts = Some r \<Longrightarrow> parseValue (Suc n) ts = Some r"
    and E: "\<And>ts r. parseElements n ts = Some r \<Longrightarrow> parseElements (Suc n) ts = Some r"
    and M: "\<And>ts r. parseMembers n ts = Some r \<Longrightarrow> parseMembers (Suc n) ts = Some r"
    by blast+
  have E': "parseElements (Suc (Suc n)) ts = Some r" if "parseElements (Suc n) ts = Some r" for ts r
  proof -
    from that obtain v ts' where v: "parseValue n ts = Some (v, ts')"
      by (auto simp del: parseValue.simps split: option.splits)
    note v' = V [OF v]
    show ?thesis
    proof (cases ts')
      case Nil
      with that v show ?thesis by (simp del: parseValue.simps)
    next
      case (Cons t ts'')
      show ?thesis
      proof (cases "t = TComma")
        case True
        with that v Cons obtain vs r' where e: "parseElements n ts'' = Some (vs, r')"
          by (auto simp del: parseValue.simps split: option.splits)
        from E [OF e] that v v' Cons True e show ?thesis
          by (simp del: parseValue.simps parseElements.simps(2)
                add: parseElements.simps(2) [of "Suc n"] parseElements.simps(2) [of n])
      next
        case False
        with that v v' Cons show ?thesis
          by (cases t) (simp_all del: parseValue.simps parseElements.simps(2)
                add: parseElements.simps(2) [of "Suc n" ts] parseElements.simps(2) [of n ts])
      qed
    qed
  qed
  have M': "parseMembers (Suc (Suc n)) ts = Some r" if "parseMembers (Suc n) ts = Some r" for ts r
  proof -
    from that obtain k ts1 where ts: "ts = TString k # TColon # ts1"
      by (auto simp del: parseValue.simps split: list.splits token.splits)
    with that obtain v ts' where v: "parseValue n ts1 = Some (v, ts')"
      by (auto simp del: parseValue.simps split: option.splits)
    note v' = V [OF v]
    show ?thesis
    proof (cases ts')
      case Nil
      with that v ts show ?thesis by (simp del: parseValue.simps)
    next
      case (Cons t ts'')
      show ?thesis
      proof (cases "t = TComma")
        case True
        with that v Cons ts obtain ms r' where e: "parseMembers n ts'' = Some (ms, r')"
          by (auto simp del: parseValue.simps split: option.splits)
        from M [OF e] that v v' Cons True e ts show ?thesis
          by (simp del: parseValue.simps parseMembers.simps(2)
                add: parseMembers.simps(2) [of "Suc n"] parseMembers.simps(2) [of n])
      next
        case False
        with that v v' Cons ts show ?thesis
          by (cases t) (simp_all del: parseValue.simps parseMembers.simps(2)
                add: parseMembers.simps(2) [of "Suc n"] parseMembers.simps(2) [of n])
      qed
    qed
  qed
  have V': "parseValue (Suc (Suc n)) ts = Some r" if "parseValue (Suc n) ts = Some r" for ts r
  proof (cases ts)
    case Nil
    with that show ?thesis by simp
  next
    case (Cons t ts1)
    show ?thesis
    proof (cases t)
      case TLBracket
      show ?thesis
      proof (cases "\<exists>ts'. ts1 = TRBracket # ts'")
        case True
        with that Cons TLBracket show ?thesis by auto
      next
        case False
        with that Cons TLBracket obtain vs ts' where e: "parseElements n ts1 = Some (vs, ts')"
          by (auto simp del: parseElements.simps split: list.splits token.splits option.splits)
        from E [OF e] that Cons TLBracket False e show ?thesis
          by (auto simp del: parseElements.simps split: list.splits token.splits)
      qed
    next
      case TLBrace
      show ?thesis
      proof (cases "\<exists>ts'. ts1 = TRBrace # ts'")
        case True
        with that Cons TLBrace show ?thesis by auto
      next
        case False
        with that Cons TLBrace obtain ms ts' where e: "parseMembers n ts1 = Some (ms, ts')"
          by (auto simp del: parseMembers.simps split: list.splits token.splits option.splits)
        from M [OF e] that Cons TLBrace False e show ?thesis
          by (auto simp del: parseMembers.simps split: list.splits token.splits)
      qed
    qed (use that Cons in simp_all)
  qed
  from V' E' M' show ?case by blast
qed


lemma parseValue_Suc: "parseValue n ts = Some r \<Longrightarrow> parseValue (Suc n) ts = Some r"
  by (rule parse_Suc_all [THEN conjunct1, rule_format])

lemma parseElements_Suc: "parseElements n ts = Some r \<Longrightarrow> parseElements (Suc n) ts = Some r"
  by (rule parse_Suc_all [THEN conjunct2, THEN conjunct1, rule_format])

lemma parseMembers_Suc: "parseMembers n ts = Some r \<Longrightarrow> parseMembers (Suc n) ts = Some r"
  by (rule parse_Suc_all [THEN conjunct2, THEN conjunct2, rule_format])

lemma parseValue_mono: "n \<le> m \<Longrightarrow> parseValue n ts = Some r \<Longrightarrow> parseValue m ts = Some r"
  by (induction rule: dec_induct) (assumption, rule parseValue_Suc)

lemma parseElements_mono:
  "n \<le> m \<Longrightarrow> parseElements n ts = Some r \<Longrightarrow> parseElements m ts = Some r"
  by (induction rule: dec_induct) (assumption, rule parseElements_Suc)

lemma parseMembers_mono:
  "n \<le> m \<Longrightarrow> parseMembers n ts = Some r \<Longrightarrow> parseMembers m ts = Some r"
  by (induction rule: dec_induct) (assumption, rule parseMembers_Suc)

lemma parse_need_all:
  "(\<forall>ts v r. parseValue n ts = Some (v, r) \<longrightarrow>
      length r < length ts \<and> parseValue (length ts - length r) ts = Some (v, r))
   \<and> (\<forall>ts vs r. parseElements n ts = Some (vs, r) \<longrightarrow>
      length r < length ts \<and> parseElements (length ts - length r) ts = Some (vs, r))
   \<and> (\<forall>ts ms r. parseMembers n ts = Some (ms, r) \<longrightarrow>
      length r < length ts \<and> parseMembers (length ts - length r) ts = Some (ms, r))"
proof (induction n)
  case 0
  show ?case by simp
next
  case (Suc n)
  then have V: "\<And>ts v r. parseValue n ts = Some (v, r) \<Longrightarrow>
        length r < length ts \<and> parseValue (length ts - length r) ts = Some (v, r)"
    and E: "\<And>ts vs r. parseElements n ts = Some (vs, r) \<Longrightarrow>
        length r < length ts \<and> parseElements (length ts - length r) ts = Some (vs, r)"
    and M: "\<And>ts ms r. parseMembers n ts = Some (ms, r) \<Longrightarrow>
        length r < length ts \<and> parseMembers (length ts - length r) ts = Some (ms, r)"
    by blast+
  have E': "length r < length ts \<and> parseElements (length ts - length r) ts = Some (vs, r)"
    if "parseElements (Suc n) ts = Some (vs, r)" for ts vs r
  proof -
    from that obtain v ts' where v: "parseValue n ts = Some (v, ts')"
      by (auto simp del: parseValue.simps split: option.splits)
    from V [OF v] have l1: "length ts' < length ts"
      and v1: "parseValue (length ts - length ts') ts = Some (v, ts')" by simp_all
    show ?thesis
    proof (cases ts')
      case Nil
      with that v show ?thesis by (simp del: parseValue.simps)
    next
      case (Cons t ts'')
      show ?thesis
      proof (cases t)
        case TComma
        with that v Cons obtain vs' where e: "parseElements n ts'' = Some (vs', r)"
          and vs: "vs = v # vs'"
          by (auto simp del: parseValue.simps split: option.splits)
        from E [OF e] have l2: "length r < length ts''"
          and e1: "parseElements (length ts'' - length r) ts'' = Some (vs', r)" by simp_all
        from l1 l2 Cons have k: "length ts - length r
            = Suc ((length ts - length ts') + (length ts'' - length r))" by simp
        have "parseValue ((length ts - length ts') + (length ts'' - length r)) ts = Some (v, ts')"
          by (rule parseValue_mono [OF _ v1]) simp
        moreover have "parseElements ((length ts - length ts') + (length ts'' - length r)) ts''
            = Some (vs', r)"
          by (rule parseElements_mono [OF _ e1]) simp
        ultimately have "parseElements (length ts - length r) ts = Some (vs, r)"
          unfolding k using Cons TComma vs by (simp del: parseValue.simps)
        with l1 l2 Cons show ?thesis by simp
      next
        case TRBracket
        with that v Cons have r: "r = ts''" "vs = [v]" by (simp_all del: parseValue.simps)
        from l1 Cons r have k: "length ts - length r = Suc (length ts - length ts')" by simp
        have "parseElements (length ts - length r) ts = Some (vs, r)"
          unfolding k using v1 Cons TRBracket r by (simp del: parseValue.simps)
        with l1 Cons r show ?thesis by simp
      qed (use that v Cons in \<open>simp_all del: parseValue.simps\<close>)
    qed
  qed
  have M': "length r < length ts \<and> parseMembers (length ts - length r) ts = Some (ms, r)"
    if "parseMembers (Suc n) ts = Some (ms, r)" for ts ms r
  proof -
    from that obtain k ts1 where ts: "ts = TString k # TColon # ts1"
      by (auto simp del: parseValue.simps split: list.splits token.splits)
    with that obtain v ts' where v: "parseValue n ts1 = Some (v, ts')"
      by (auto simp del: parseValue.simps split: option.splits)
    from V [OF v] have l1: "length ts' < length ts1"
      and v1: "parseValue (length ts1 - length ts') ts1 = Some (v, ts')" by simp_all
    show ?thesis
    proof (cases ts')
      case Nil
      with that v ts show ?thesis by (simp del: parseValue.simps)
    next
      case (Cons t ts'')
      show ?thesis
      proof (cases t)
        case TComma
        with that v Cons ts obtain ms' where e: "parseMembers n ts'' = Some (ms', r)"
          and ms: "ms = (k, v) # ms'"
          by (auto simp del: parseValue.simps split: option.splits)
        from M [OF e] have l2: "length r < length ts''"
          and e1: "parseMembers (length ts'' - length r) ts'' = Some (ms', r)" by simp_all
        from l1 l2 Cons ts have kk: "length ts - length r
            = Suc (Suc (Suc ((length ts1 - length ts') + (length ts'' - length r))))" by simp
        have "parseValue (Suc (Suc ((length ts1 - length ts') + (length ts'' - length r)))) ts1
            = Some (v, ts')"
          by (rule parseValue_mono [OF _ v1]) simp
        moreover have "parseMembers (Suc (Suc ((length ts1 - length ts') + (length ts'' - length r)))) ts''
            = Some (ms', r)"
          by (rule parseMembers_mono [OF _ e1]) simp
        ultimately have "parseMembers (length ts - length r) ts = Some (ms, r)"
          unfolding kk using Cons TComma ms ts by (simp del: parseValue.simps)
        with l1 l2 Cons ts show ?thesis by simp
      next
        case TRBrace
        with that v Cons ts have r: "r = ts''" "ms = [(k, v)]" by (simp_all del: parseValue.simps)
        from l1 Cons r ts have kk: "length ts - length r
            = Suc (Suc (Suc (length ts1 - length ts')))" by simp
        have "parseValue (Suc (Suc (length ts1 - length ts'))) ts1 = Some (v, ts')"
          by (rule parseValue_mono [OF _ v1]) simp
        then have "parseMembers (length ts - length r) ts = Some (ms, r)"
          unfolding kk using Cons TRBrace r ts by (simp del: parseValue.simps)
        with l1 Cons r ts show ?thesis by simp
      qed (use that v Cons ts in \<open>simp_all del: parseValue.simps\<close>)
    qed
  qed
  have V': "length r < length ts \<and> parseValue (length ts - length r) ts = Some (v, r)"
    if "parseValue (Suc n) ts = Some (v, r)" for ts v r
  proof (cases ts)
    case Nil
    with that show ?thesis by simp
  next
    case (Cons t ts1)
    have one: "length (t # ts1) - length ts1 = Suc 0" by simp
    show ?thesis
    proof (cases t)
      case TLBracket
      show ?thesis
      proof (cases "\<exists>ts'. ts1 = TRBracket # ts'")
        case True
        then obtain ts' where "ts1 = TRBracket # ts'" by blast
        with that Cons TLBracket have "r = ts'" "v = JArray []" by simp_all
        moreover have "length (t # TRBracket # ts') - length ts' = Suc (Suc 0)" by simp
        ultimately show ?thesis using \<open>ts1 = TRBracket # ts'\<close> Cons TLBracket
          by (simp add: numeral_2_eq_2)
      next
        case False
        with that Cons TLBracket obtain vs where e: "parseElements n ts1 = Some (vs, r)"
          and v: "v = JArray vs"
          by (auto simp del: parseElements.simps split: list.splits token.splits option.splits)
        from E [OF e] have l: "length r < length ts1"
          and e1: "parseElements (length ts1 - length r) ts1 = Some (vs, r)" by simp_all
        from l Cons have k: "length ts - length r = Suc (length ts1 - length r)" by simp
        have "parseValue (length ts - length r) ts = Some (v, r)"
          unfolding k using e1 False Cons TLBracket v
          by (auto simp del: parseElements.simps split: list.splits token.splits)
        with l Cons show ?thesis by simp
      qed
    next
      case TLBrace
      show ?thesis
      proof (cases "\<exists>ts'. ts1 = TRBrace # ts'")
        case True
        then obtain ts' where "ts1 = TRBrace # ts'" by blast
        with that Cons TLBrace have "r = ts'" "v = JObject []" by simp_all
        moreover have "length (t # TRBrace # ts') - length ts' = Suc (Suc 0)" by simp
        ultimately show ?thesis using \<open>ts1 = TRBrace # ts'\<close> Cons TLBrace
          by (simp add: numeral_2_eq_2)
      next
        case False
        with that Cons TLBrace obtain ms where e: "parseMembers n ts1 = Some (ms, r)"
          and v: "v = JObject ms"
          by (auto simp del: parseMembers.simps split: list.splits token.splits option.splits)
        from M [OF e] have l: "length r < length ts1"
          and e1: "parseMembers (length ts1 - length r) ts1 = Some (ms, r)" by simp_all
        from l Cons have k: "length ts - length r = Suc (length ts1 - length r)" by simp
        have "parseValue (length ts - length r) ts = Some (v, r)"
          unfolding k using e1 False Cons TLBrace v
          by (auto simp del: parseMembers.simps split: list.splits token.splits)
        with l Cons show ?thesis by simp
      qed
    qed (use that Cons one in auto)
  qed
  show ?case
  proof (intro conjI allI impI)
    fix ts v r assume "parseValue (Suc n) ts = Some (v, r)"
    from V' [OF this] show "length r < length ts"
      "parseValue (length ts - length r) ts = Some (v, r)" by simp_all
  next
    fix ts vs r assume "parseElements (Suc n) ts = Some (vs, r)"
    from E' [OF this] show "length r < length ts"
      "parseElements (length ts - length r) ts = Some (vs, r)" by simp_all
  next
    fix ts ms r assume "parseMembers (Suc n) ts = Some (ms, r)"
    from M' [OF this] show "length r < length ts"
      "parseMembers (length ts - length r) ts = Some (ms, r)" by simp_all
  qed
qed

lemma parseJSON_fuel:
  assumes "lex s = Some ts" and "parseValue n ts = Some (v, [])"
  shows "parseJSON s = Some v"
proof -
  from parse_need_all [of n, THEN conjunct1, rule_format, OF assms(2)]
  have "parseValue (length ts) ts = Some (v, [])" by simp
  then have "parseValue (Suc (length ts)) ts = Some (v, [])"
    using parse_Suc_all [of "length ts"] by blast
  with assms(1) show ?thesis by (simp add: parseJSON_def)
qed

lemma lastWins_distinct:
  "distinct (map fst ms) \<Longrightarrow> fst ` set ms \<inter> fst ` set acc = {} \<Longrightarrow> lastWins ms acc = acc @ ms"
proof (induction ms arbitrary: acc)
  case Nil
  then show ?case by simp
next
  case (Cons m ms)
  obtain k v where m: "m = (k, v)" by (cases m)
  from Cons.prems m have notin: "k \<notin> fst ` set acc" by auto
  have upd: "AList.update k v acc = acc @ [(k, v)]"
    using notin by (induction acc) auto
  from Cons.prems m have "fst ` set ms \<inter> fst ` set (acc @ [(k, v)]) = {}"
    by (auto simp: image_iff)
  with Cons m upd show ?case by simp
qed

lemma filter_key_distinct:
  "distinct (map fst zs) \<Longrightarrow> z \<in> set zs \<Longrightarrow> filter (\<lambda>x. fst z = fst x) zs = [z]"
proof (induction zs)
  case Nil
  then show ?case by simp
next
  case (Cons a zs)
  show ?case
  proof (cases "z = a")
    case True
    with Cons.prems have "\<forall>x \<in> set zs. fst z \<noteq> fst x" by (auto simp: image_iff)
    then have "filter (\<lambda>x. fst z = fst x) zs = []" by (simp add: filter_empty_conv)
    with True show ?thesis by simp
  next
    case False
    with Cons.prems have z: "z \<in> set zs" "fst z \<noteq> fst a" by (auto simp: image_iff)
    with Cons show ?thesis by simp
  qed
qed

lemma distinct_keys_perm:
  assumes "mset xs = mset ys" and "distinct (map fst xs)"
  shows "distinct (map fst ys)"
proof -
  have "mset (map fst xs) = mset (map fst ys)" using assms(1) by simp
  then show ?thesis using assms(2) mset_eq_imp_distinct_iff by blast
qed

lemma sort_key_perm_distinct:
  assumes "mset xs = mset ys" and "distinct (map fst xs)"
  shows "sort_key fst xs = sort_key fst ys"
proof -
  have dy: "distinct (map fst ys)"
    using assms by (rule distinct_keys_perm)
  have sx: "set xs = set ys" using assms(1) by (rule mset_eq_setD)
  show ?thesis
  proof (rule properties_for_sort_key)
    show "mset (sort_key fst ys) = mset xs" using assms(1) by simp
    show "sorted (map fst (sort_key fst ys))" by simp
    fix k assume "k \<in> set (sort_key fst ys)"
    then have k: "k \<in> set ys" by simp
    have "distinct (map fst (sort_key fst ys))"
      by (rule distinct_keys_perm [of ys]) (simp_all add: dy)
    then have "filter (\<lambda>x. fst k = fst x) (sort_key fst ys) = [k]"
      using k by (intro filter_key_distinct) simp_all
    moreover have "filter (\<lambda>x. fst k = fst x) xs = [k]"
      using k sx assms(2) by (intro filter_key_distinct) simp_all
    ultimately show "filter (\<lambda>x. fst k = fst x) (sort_key fst ys) = filter (\<lambda>x. fst k = fst x) xs"
      by simp
  qed
qed

lemma canonical_members:
  "map (\<lambda>(k, v). (k, canonical v)) ms = zip (map fst ms) (map canonical (map snd ms))"
  by (induction ms) auto

lemma list_all2_map_eq:
  "list_all2 (\<lambda>x y. P x y \<and> f x = f y) xs ys \<Longrightarrow> map f xs = map f ys"
  by (induction rule: list_all2_induct) simp_all

lemma sameJSON_canonical: "sameJSON a b \<Longrightarrow> canonical a = canonical b"
proof (induction rule: sameJSON.induct)
  case (same v)
  then show ?case by simp
next
  case (array vs ws)
  then have "map canonical vs = map canonical ws"
    by (rule list_all2_map_eq)
  then show ?case by simp
next
  case (object ms ns' ns)
  let ?c = "map (\<lambda>(k, v). (k, canonical v))"
  from object have "map canonical (map snd ms) = map canonical (map snd ns')"
    by (intro list_all2_map_eq [where P = sameJSON]) simp
  moreover from object have fsts: "map fst ms = map fst ns'" by simp
  ultimately have eq: "?c ms = ?c ns'" by (simp add: canonical_members)
  from object have d0: "distinct (map fst ms)" and p0: "mset ns' = mset ns" by simp_all
  have keys: "map fst (?c ms) = map fst ms" by (induction ms) auto
  have dm: "distinct (map fst (?c ms))" by (subst keys) (rule d0)
  have perm: "mset (?c ns') = mset (?c ns)" using p0 by simp
  have dn: "distinct (map fst (?c ns))"
    using perm dm unfolding eq by (rule distinct_keys_perm)
  have "lastWins (?c ms) [] = ?c ms" using dm by (simp add: lastWins_distinct)
  moreover have "lastWins (?c ns) [] = ?c ns" using dn by (simp add: lastWins_distinct)
  moreover have "sort_key fst (?c ms) = sort_key fst (?c ns)"
    using sort_key_perm_distinct [of "?c ms" "?c ns"] eq perm dm by simp
  ultimately show ?case by simp
qed

lemma lexString_quote: "lexString (CHR 0x22 # y) acc = Some (acc, y)"
  by (cases y) simp_all

lemma lexString_rest:
  "lexString x acc = Some (s, r) \<Longrightarrow>
   \<exists>body. x = body @ CHR 0x22 # r \<and> (\<forall>y. lexString (body @ CHR 0x22 # y) acc = Some (s, y))"
proof (induction x acc rule: lexString.induct)
  case (1 acc)
  then show ?case by simp
next
  case (2 c acc)
  then have "c = CHR 0x22" "s = acc" "r = []" by (simp_all split: if_splits)
  then show ?case using lexString_quote by (intro exI [of _ "[]"]) simp
next
  case (3 c e cs acc)
  show ?case
  proof (cases "c = CHR 0x22")
    case True
    with 3(4) have "s = acc" "r = e # cs" by simp_all
    with True show ?thesis using lexString_quote by (intro exI [of _ "[]"]) simp
  next
    case nq: False
    show ?thesis
    proof (cases "c = CHR 0x5C")
      case True
      show ?thesis
      proof (cases "e = CHR ''u''")
        case u: True
        with nq True 3(4) have hex: "4 \<le> length cs \<and> list_all isHex (take 4 cs)"
          and rec: "lexString (drop 4 cs) (acc @ [c, e] @ take 4 cs) = Some (s, r)"
          by (simp_all split: if_splits)
        from 3(1) [OF nq True u hex rec] obtain body where
          b: "drop 4 cs = body @ CHR 0x22 # r"
          "\<forall>y. lexString (body @ CHR 0x22 # y) (acc @ [c, e] @ take 4 cs) = Some (s, y)" by blast
        have cs: "cs = take 4 cs @ body @ CHR 0x22 # r"
          using b(1) append_take_drop_id [of 4 cs] by simp
        have "lexString ((c # e # take 4 cs @ body) @ CHR 0x22 # y) acc = Some (s, y)" for y
          using nq True u hex b(2) by simp
        moreover have "c # e # cs = (c # e # take 4 cs @ body) @ CHR 0x22 # r"
          using cs by simp
        ultimately show ?thesis by blast
      next
        case nu: False
        with nq True 3(4) obtain x where x: "unescape e = Some x"
          and rec: "lexString cs (acc @ [x]) = Some (s, r)"
          by (auto split: option.splits)
        from 3(2) [OF nq True nu x rec] obtain body where
          b: "cs = body @ CHR 0x22 # r"
          "\<forall>y. lexString (body @ CHR 0x22 # y) (acc @ [x]) = Some (s, y)" by blast
        have "lexString ((c # e # body) @ CHR 0x22 # y) acc = Some (s, y)" for y
          using nq True nu x b(2) by simp
        with b(1) show ?thesis by (intro exI [of _ "c # e # body"]) simp
      qed
    next
      case nb: False
      with nq 3(4) have ctl: "\<not> (of_char c :: nat) < 32"
        and rec: "lexString (e # cs) (acc @ [c]) = Some (s, r)"
        by (simp_all split: if_splits)
      from 3(3) [OF nq nb ctl rec] obtain body where
        b: "e # cs = body @ CHR 0x22 # r"
        "\<forall>y. lexString (body @ CHR 0x22 # y) (acc @ [c]) = Some (s, y)" by blast
      have "lexString ((c # body) @ CHR 0x22 # y) acc = Some (s, y)" for y
      proof -
        obtain e' cs' where "body @ CHR 0x22 # y = e' # cs'" by (cases body) auto
        with nq nb ctl b(2) [rule_format, of y] show ?thesis by simp
      qed
      with b(1) show ?thesis by (intro exI [of _ "c # body"]) simp
    qed
  qed
qed


lemma lexString_length: "lexString x acc = Some (s, r) \<Longrightarrow> length r < length x"
  using lexString_rest [of x acc s r] by auto

lemma lexToken_length: "lexToken s = Some (t, rest) \<Longrightarrow> length rest < length s"
proof (cases s)
  case Nil
  then show "lexToken s = Some (t, rest) \<Longrightarrow> ?thesis" by (simp add: lexToken_def)
next
  case (Cons c cs)
  have num: "length (dropWhile numChar (c # cs)) \<le> length cs" if "c = CHR ''-'' \<or> isDigit c"
    using that length_dropWhile_le [of numChar cs] by (auto simp: numChar_def)
  show "lexToken s = Some (t, rest) \<Longrightarrow> ?thesis"
    using Cons num lexString_length [of cs "[]"]
    by (auto simp: lexToken_def less_Suc_eq_le split: if_splits option.splits)
qed

lemma lexToken_not_space: "lexToken (c # cs) = Some (t, rest) \<Longrightarrow> \<not> isSpace c"
  by (auto simp: lexToken_def isSpace_def isDigit_def split: if_splits)

lemma take_drop_append: "take n cs = a \<Longrightarrow> drop n cs = x \<Longrightarrow> cs = a @ x"
  using append_take_drop_id [of n cs] by simp

lemma lexToken_follow:
  assumes tok: "lexToken (raw @ x) = Some (t, x)"
    and nxt: "y = [] \<or> \<not> numChar (hd y) \<or> (x \<noteq> [] \<and> y \<noteq> [] \<and> hd y = hd x)"
  shows "lexToken (raw @ y) = Some (t, y)"
proof (cases raw)
  case Nil
  with tok lexToken_length [of x t x] show ?thesis by simp
next
  case (Cons c raw')
  let ?cs = "raw' @ x"
  have s: "raw @ x = c # ?cs" using Cons by simp
  consider (punct) "c \<in> set ''{}[]:,''" | (str) "c = CHR 0x22"
    | (num) "c = CHR ''-'' \<or> isDigit c" | (lit) "c \<notin> set ''{}[]:,''" "c \<noteq> CHR 0x22" "\<not> (c = CHR ''-'' \<or> isDigit c)"
    by blast
  then show ?thesis
  proof cases
    case punct
    with tok s have "raw' = []" by (auto simp: lexToken_def split: if_splits)
    with punct tok Cons show ?thesis by (auto simp: lexToken_def split: if_splits)
  next
    case str
    with tok s obtain st where st: "lexString ?cs [] = Some (st, x)" "t = TString st"
      by (auto simp: lexToken_def split: option.splits)
    from lexString_rest [OF st(1)] obtain body where
      b: "?cs = body @ CHR 0x22 # x" "\<forall>y. lexString (body @ CHR 0x22 # y) [] = Some (st, y)" by blast
    from b(1) have "raw' = body @ [CHR 0x22]" by simp
    with b(2) str st(2) Cons show ?thesis by (simp add: lexToken_def)
  next
    case num
    have nd: "c \<notin> set ''{}[]:,''" "c \<noteq> CHR 0x22" using num by (auto simp: isDigit_def)
    from tok s num nd have v: "validNumber (takeWhile numChar (raw @ x))"
      and t: "t = TNumber (takeWhile numChar (raw @ x))"
      and d: "dropWhile numChar (raw @ x) = x"
      by (auto simp: lexToken_def split: if_splits)
    have "takeWhile numChar (raw @ x) @ x = raw @ x"
      using takeWhile_dropWhile_id [of numChar "raw @ x"] d by simp
    then have r: "takeWhile numChar (raw @ x) = raw" by simp
    then have all: "\<forall>a\<in>set raw. numChar a" using set_takeWhileD [of _ numChar "raw @ x"] by metis
    have "dropWhile numChar x = x" using d all by (simp add: dropWhile_append2)
    then have x: "x = [] \<or> \<not> numChar (hd x)"
      using length_dropWhile_le [of numChar "tl x"] by (cases x) (auto split: if_splits)
    with nxt have y: "takeWhile numChar y = []" "dropWhile numChar y = y" by (cases y; auto)+
    have "takeWhile numChar (raw @ y) = raw" "dropWhile numChar (raw @ y) = y"
      using all y by (simp_all add: takeWhile_append2 dropWhile_append2)
    with v r t num nd Cons show ?thesis by (simp add: lexToken_def)
  next
    case lit
    with tok s consider "c = CHR ''t''" "take 3 ?cs = ''rue''" "drop 3 ?cs = x" "t = TTrue"
      | "c = CHR ''f''" "take 4 ?cs = ''alse''" "drop 4 ?cs = x" "t = TFalse"
      | "c = CHR ''n''" "take 3 ?cs = ''ull''" "drop 3 ?cs = x" "t = TNull"
      by (auto simp: lexToken_def split: if_splits)
    then show ?thesis
    proof cases
      case 1
      from take_drop_append [OF 1(2,3)] have "raw' = ''rue''" by simp
      with 1 lit Cons show ?thesis by (simp add: lexToken_def)
    next
      case 2
      from take_drop_append [OF 2(2,3)] have "raw' = ''alse''" by simp
      with 2 lit Cons show ?thesis by (simp add: lexToken_def)
    next
      case 3
      from take_drop_append [OF 3(2,3)] have "raw' = ''ull''" by simp
      with 3 lit Cons show ?thesis by (simp add: lexToken_def)
    qed
  qed
qed

lemma lex_spaces: "list_all isSpace w \<Longrightarrow> lex (w @ s) = lex s"
  by (induction w) simp_all

lemma space_not_numChar: "isSpace c \<Longrightarrow> \<not> numChar c"
  by (auto simp: isSpace_def numChar_def isDigit_def)

lemma lex_whitespace:
  assumes "splitsAt p r" and w: "list_all isSpace w"
  shows "lex (p @ w @ r) = lex (p @ r)"
  using assms(1)
proof (induction rule: splitsAt.induct)
  case (start r)
  then show ?case using w by (simp add: lex_spaces)
next
  case (space c p r)
  then show ?case by simp
next
  case (token raw p r t)
  have nxt: "p @ w @ r = [] \<or> \<not> numChar (hd (p @ w @ r))
      \<or> (p @ r \<noteq> [] \<and> p @ w @ r \<noteq> [] \<and> hd (p @ w @ r) = hd (p @ r))"
  proof (cases p)
    case Nil
    show ?thesis
    proof (cases w)
      case Nil
      with \<open>p = []\<close> show ?thesis by (cases r) simp_all
    next
      case (Cons a w')
      with w \<open>p = []\<close> show ?thesis by (simp add: space_not_numChar)
    qed
  next
    case (Cons a p')
    then show ?thesis by simp
  qed
  from lexToken_follow [OF token(1) nxt]
  have tk: "lexToken (raw @ p @ w @ r) = Some (t, p @ w @ r)" .
  from token(1) lexToken_length [of "raw @ p @ r" t "p @ r"] obtain c raw' where
    raw: "raw = c # raw'" by (cases raw) auto
  have ns: "\<not> isSpace c" using token(1) lexToken_not_space raw by auto
  show ?case using tk token(1) token.IH ns raw by simp
qed

lemma parseJSON_whitespace:
  "splitsAt p r \<Longrightarrow> list_all isSpace w \<Longrightarrow> parseJSON (p @ w @ r) = parseJSON (p @ r)"
  by (simp add: parseJSON_def lex_whitespace)

lemma equivalentJSON_canonical:
  "equivalentJSON old new \<Longrightarrow>
   \<exists>a b. parseJSON old = Some a \<and> parseJSON new = Some b \<and> canonical a = canonical b"
proof (induction rule: equivalentJSON.induct)
  case (members old a new b)
  then show ?case by (simp add: sameJSON_canonical)
next
  case (whitespace p r a w)
  then show ?case by (simp add: parseJSON_whitespace)
next
  case (sym old new)
  then show ?case by auto
next
  case (trans old mid new)
  then show ?case by auto
qed

text \<open>
  C7. Two values of \<open>body_template\<close> that are semantically equivalent JSON, differing in
  the order of the members of their objects or in the whitespace between their tokens
  only, are reported as unchanged by the diff-suppression function of \<open>body_template\<close>.
\<close>

theorem body_template_equivalent_json:
  assumes "equivalentJSON old new"
  shows "\<exists>s suppress. map_of customWebhookTemplateSchema ''body_template'' = Some s
     \<and> DiffSuppressFunc s = Some suppress \<and> suppress k old new d"
  using equivalentJSON_canonical [OF assms]
  by (auto simp add: customWebhookTemplateSchema_def Schema_def suppressEquivalentJSONDiffs_def)

theorem body_template_equivalent_json_witness:
  \<open>equivalentJSON ''{"a":1,"b":[true,null]}'' '' { "b" : [ true , null ] ,  "a" : 1 } ''
   \<and> equivalentJSON ''{"a":1}'' ''{"a": 1}''
   \<and> (\<exists>s suppress. map_of customWebhookTemplateSchema ''body_template'' = Some s
        \<and> DiffSuppressFunc s = Some suppress
        \<and> suppress ''body_template'' ''{"a":1,"b":[true,null]}''
             '' { "b" : [ true , null ] ,  "a" : 1 } '' exampleRename)
   \<and> (\<exists>s suppress. map_of customWebhookTemplateSchema ''body_template'' = Some s
        \<and> DiffSuppressFunc s = Some suppress
        \<and> suppress ''body_template'' ''{"a":1}'' ''{"a": 1}'' exampleRename)\<close>
proof -
  have old: \<open>parseJSON ''{"a":1,"b":[true,null]}''
     = Some (JObject [(''a'', JNumber ''1''), (''b'', JArray [JBool True, JNull])])\<close>
    by code_simp
  have new: \<open>parseJSON '' { "b" : [ true , null ] ,  "a" : 1 } ''
     = Some (JObject [(''b'', JArray [JBool True, JNull]), (''a'', JNumber ''1'')])\<close>
    by code_simp
  have same: "sameJSON (JObject [(''a'', JNumber ''1''), (''b'', JArray [JBool True, JNull])])
        (JObject [(''b'', JArray [JBool True, JNull]), (''a'', JNumber ''1'')])"
    by (rule sameJSON.object
          [where ns' = "[(''a'', JNumber ''1''), (''b'', JArray [JBool True, JNull])]"])
       (simp_all add: sameJSON.same)
  have order: \<open>equivalentJSON ''{"a":1,"b":[true,null]}''
      '' { "b" : [ true , null ] ,  "a" : 1 } ''\<close>
    using old new same by (rule equivalentJSON.members)
  have one: \<open>parseJSON (''{"a":'' @ ''1}'') = Some (JObject [(''a'', JNumber ''1'')])\<close>
    by code_simp
  have t1: \<open>lexToken (''{'' @ ''"a":'' @ ''1}'') = Some (TLBrace, ''"a":'' @ ''1}'')\<close>
    by code_simp
  have t2: \<open>lexToken (''"a"'' @ '':'' @ ''1}'') = Some (TString ''a'', '':'' @ ''1}'')\<close>
    by code_simp
  have t3: \<open>lexToken ('':'' @ [] @ ''1}'') = Some (TColon, [] @ ''1}'')\<close>
    by code_simp
  have s3: \<open>splitsAt ('':'' @ []) ''1}''\<close>
    using t3 splitsAt.start by (rule splitsAt.token)
  have s2: \<open>splitsAt (''"a"'' @ '':'') ''1}''\<close>
    using t2 s3 by (intro splitsAt.token) simp_all
  have s1: \<open>splitsAt (''{'' @ ''"a":'') ''1}''\<close>
    using t1 s2 by (intro splitsAt.token) simp_all
  have \<open>equivalentJSON (''{"a":'' @ ''1}'') (''{"a":'' @ '' '' @ ''1}'')\<close>
    using one by (rule equivalentJSON.whitespace) (use s1 in \<open>simp_all add: isSpace_def\<close>)
  then have space: \<open>equivalentJSON ''{"a":1}'' ''{"a": 1}''\<close> by simp
  show ?thesis
    using body_template_equivalent_json [OF order, of "''body_template''" exampleRename]
      body_template_equivalent_json [OF space, of "''body_template''" exampleRename]
      order space
    by simp
qed

section \<open>Properties of plan-time validation\<close>

lemma zeroValue_not_True: "zeroValue t \<noteq> VBool True"
  by (cases t) simp_all

lemma zeroOf_not_True: "zeroOf d k \<noteq> VBool True"
  by (simp add: zeroOf_def zeroValue_not_True split: option.splits)

lemma d_GetOk_True: "d_Get d k = VBool True \<Longrightarrow> d_GetOk d k = (VBool True, True)"
  using zeroOf_not_True [of d k]
  by (cases "merged d k") (simp_all add: d_GetOk_def d_Get_def)

lemma d_GetOk_False: "d_Get d k = VBool False \<Longrightarrow> \<exists>ok. d_GetOk d k = (VBool False, ok)"
  by (simp add: d_GetOk_def)

lemma validateFields_find:
  assumes "\<forall>field \<in> set fs. \<exists>b. d_Get d field = VBool b"
  shows "validateFields d triggerType fs =
    (if triggerType = ''incident_change'' then Some None
     else case find (\<lambda>field. d_Get d field = VBool True) fs of
            None \<Rightarrow> Some None
          | Some field \<Rightarrow> Some (Some (incidentError field)))"
  using assms
proof (induction fs)
  case Nil
  then show ?case by simp
next
  case (Cons f fs)
  then obtain b where b: "d_Get d f = VBool b" by auto
  have IH: "validateFields d triggerType fs =
    (if triggerType = ''incident_change'' then Some None
     else case find (\<lambda>field. d_Get d field = VBool True) fs of
            None \<Rightarrow> Some None
          | Some field \<Rightarrow> Some (Some (incidentError field)))"
    using Cons by simp
  show ?case
  proof (cases b)
    case True
    with b have ok: "d_GetOk d f = (VBool True, True)" by (simp add: d_GetOk_True)
    show ?thesis
      using IH by (cases "triggerType = ''incident_change''")
         (simp_all add: ok b True incidentError_def)
  next
    case False
    with b have "d_Get d f = VBool False" by simp
    then obtain ok where ok: "d_GetOk d f = (VBool False, ok)" using d_GetOk_False by blast
    show ?thesis
      using IH by (cases ok; cases "triggerType = ''incident_change''")
         (simp_all add: ok b False)
  qed
qed

text \<open>
  C2. For a record whose \<open>trigger_type\<close> is a string and whose three incident fields are
  bools: when one of \<open>on_incident_started\<close>, \<open>on_incident_acknowledged\<close>,
  \<open>on_incident_resolved\<close> is set (true) and \<open>trigger_type\<close> is not
  \<open>incident_change\<close>, validation returns the error that names such a field; when
  \<open>trigger_type\<close> is \<open>incident_change\<close> or none of the three is set, it returns no
  error.
\<close>

theorem validate_incident_flags:
  assumes tt: "d_Get d ''trigger_type'' = VString triggerType"
    and flags: "\<forall>field \<in> set incidentFields. \<exists>b. d_Get d field = VBool b"
  shows "(triggerType \<noteq> ''incident_change''
            \<and> (\<exists>field \<in> set incidentFields. d_Get d field = VBool True)
          \<longrightarrow> (\<exists>field \<in> set incidentFields. d_Get d field = VBool True
                \<and> validateOutgoingWebhook d =
                    Some (Some (field @ '' can only be set when trigger_type is ''
                                  @ [CHR 0x27] @ ''incident_change'' @ [CHR 0x27]))))
       \<and> (triggerType = ''incident_change''
            \<or> (\<forall>field \<in> set incidentFields. d_Get d field \<noteq> VBool True)
          \<longrightarrow> validateOutgoingWebhook d = Some None)"
proof -
  have v: "validateOutgoingWebhook d =
    (if triggerType = ''incident_change'' then Some None
     else case find (\<lambda>field. d_Get d field = VBool True) incidentFields of
            None \<Rightarrow> Some None
          | Some field \<Rightarrow> Some (Some (incidentError field)))"
    using validateFields_find [OF flags] tt by (simp add: validateOutgoingWebhook_def)
  show ?thesis
  proof (intro conjI impI)
    assume a: "triggerType \<noteq> ''incident_change''
            \<and> (\<exists>field \<in> set incidentFields. d_Get d field = VBool True)"
    then obtain field where f: "find (\<lambda>field. d_Get d field = VBool True) incidentFields = Some field"
      by (cases "find (\<lambda>field. d_Get d field = VBool True) incidentFields")
         (auto simp: find_None_iff)
    then have "field \<in> set incidentFields" "d_Get d field = VBool True"
      by (auto simp: find_Some_iff)
    with v a f show "\<exists>field \<in> set incidentFields. d_Get d field = VBool True
                \<and> validateOutgoingWebhook d =
                    Some (Some (field @ '' can only be set when trigger_type is ''
                                  @ [CHR 0x27] @ ''incident_change'' @ [CHR 0x27]))"
      by (auto simp: incidentError_def)
  next
    assume "triggerType = ''incident_change''
            \<or> (\<forall>field \<in> set incidentFields. d_Get d field \<noteq> VBool True)"
    then show "validateOutgoingWebhook d = Some None"
      using v by (auto simp: find_None_iff [THEN iffD2] split: option.splits dest: find_Some_iff [THEN iffD1])
  qed
qed

theorem validate_incident_flags_witness:
  "d_Get (exampleWebhook ''monitor_change'' True) ''trigger_type'' = VString ''monitor_change''
   \<and> d_Get (exampleWebhook ''monitor_change'' True) ''on_incident_started'' = VBool True
   \<and> d_Get (exampleWebhook ''monitor_change'' True) ''on_incident_acknowledged'' = VBool False
   \<and> d_Get (exampleWebhook ''monitor_change'' True) ''on_incident_resolved'' = VBool False
   \<and> ''monitor_change'' \<noteq> ''incident_change''
   \<and> validateOutgoingWebhook (exampleWebhook ''monitor_change'' True) =
         Some (Some (''on_incident_started can only be set when trigger_type is ''
                       @ [CHR 0x27] @ ''incident_change'' @ [CHR 0x27]))
   \<and> d_Get (exampleWebhook ''incident_change'' True) ''trigger_type'' = VString ''incident_change''
   \<and> validateOutgoingWebhook (exampleWebhook ''incident_change'' True) = Some None"
proof -
  have tt: "d_Get (exampleWebhook t b) ''trigger_type'' = VString t" for t b
    by (simp add: exampleWebhook_def d_Get_def merged_def)
  have started: "d_Get (exampleWebhook t True) ''on_incident_started'' = VBool True" for t
    by (simp add: exampleWebhook_def d_Get_def merged_def)
  have ack: "d_Get (exampleWebhook t b) ''on_incident_acknowledged'' = VBool False" for t b
    by (simp add: exampleWebhook_def d_Get_def merged_def)
  have res: "d_Get (exampleWebhook t b) ''on_incident_resolved'' = VBool False" for t b
    by (simp add: exampleWebhook_def d_Get_def merged_def)
  have flags: "\<forall>field \<in> set incidentFields. \<exists>c. d_Get (exampleWebhook t True) field = VBool c" for t
    using started ack res by (auto simp: incidentFields_def)
  have ne: "''monitor_change'' \<noteq> ''incident_change''" by simp
  have set: "\<exists>field \<in> set incidentFields.
         d_Get (exampleWebhook ''monitor_change'' True) field = VBool True"
    using started by (simp add: incidentFields_def)
  note bad = validate_incident_flags [OF tt flags, of "''monitor_change''", THEN conjunct1,
      rule_format, OF conjI, OF ne set]
  note good = validate_incident_flags [OF tt flags, of "''incident_change''", THEN conjunct2,
      rule_format, OF disjI1, OF refl]
  from bad obtain field where f: "field \<in> set incidentFields"
    "d_Get (exampleWebhook ''monitor_change'' True) field = VBool True"
    "validateOutgoingWebhook (exampleWebhook ''monitor_change'' True) =
       Some (Some (field @ '' can only be set when trigger_type is ''
                     @ [CHR 0x27] @ ''incident_change'' @ [CHR 0x27]))"
    by blast
  from f(1,2) ack res have "field = ''on_incident_started''"
    by (auto simp: incidentFields_def)
  with f(3) show ?thesis using good tt started ack res by simp
qed

section \<open>Properties of the record mapper\<close>

lemma store_other: "store p v w = Some w' \<Longrightarrow> p' \<noteq> p \<Longrightarrow> deref p' w' = deref p' w"
  by (cases p; cases v; cases p') auto


lemma load_other: "load d k p w = Some w' \<Longrightarrow> p' \<noteq> p \<Longrightarrow> deref p' w' = deref p' w"
  by (cases "merged d k") (auto simp: load_def d_GetOkExists_def dest: store_other)


lemma loadRefs_other:
  "loadRefs d es w = Some w' \<Longrightarrow> p \<notin> snd ` set es \<Longrightarrow> deref p w' = deref p w"
proof (induction es arbitrary: w)
  case Nil
  then show ?case by simp
next
  case (Cons e es)
  obtain k q where e: "e = (k, q)" by (cases e)
  with Cons.prems obtain w1 where w1: "load d k q w = Some w1" "loadRefs d es w1 = Some w'"
    by (auto split: option.splits)
  from Cons.prems e have "p \<noteq> q" "p \<notin> snd ` set es" by auto
  with Cons.IH [OF w1(2)] load_other [OF w1(1)] show ?case by simp
qed

lemma loadChangedRefs_unchanged:
  "loadChangedRefs d es w = Some w' \<Longrightarrow> \<forall>k. (k, p) \<in> set es \<longrightarrow> \<not> d_HasChange d k
   \<Longrightarrow> deref p w' = deref p w"
proof (induction es arbitrary: w)
  case Nil
  then show ?case by simp
next
  case (Cons e es)
  obtain k q where e: "e = (k, q)" by (cases e)
  show ?case
  proof (cases "d_HasChange d k")
    case True
    with Cons.prems e obtain w1 where w1: "load d k q w = Some w1" "loadChangedRefs d es w1 = Some w'"
      by (auto split: option.splits)
    from Cons.prems(2) e True have "p \<noteq> q" by auto
    moreover from Cons.prems(2) have "\<forall>k. (k, p) \<in> set es \<longrightarrow> \<not> d_HasChange d k" by simp
    ultimately show ?thesis using Cons.IH [OF w1(2)] load_other [OF w1(1)] by simp
  next
    case False
    with Cons.prems e have "loadChangedRefs d es w = Some w'" by simp
    moreover from Cons.prems(2) have "\<forall>k. (k, p) \<in> set es \<longrightarrow> \<not> d_HasChange d k" by simp
    ultimately show ?thesis using Cons.IH by simp
  qed
qed

lemma loadTemplate_deref: "loadTemplate d w = Some w' \<Longrightarrow> deref p w' = deref p w"
  by (cases p) (auto simp: loadTemplate_def split: prod.splits if_splits val.splits list.splits elem.splits bool.splits option.splits)

lemma fst_omitempty: "fst ` set (omitempty fs) = {k. \<exists>v. (k, Some v) \<in> set fs}"
  by (induction fs rule: omitempty.induct) auto

lemma d_Set_other_key:
  "d_Set d k v = (e, d') \<Longrightarrow> k' \<noteq> k \<Longrightarrow> d_Get d' k' = d_Get d k'"
  by (auto simp: d_Set_def d_Get_def merged_def zeroOf_def split: option.splits if_splits)

lemma d_Get_d_SetId:
  "d_Get (d_SetId d v) k =
     (if k = ''id'' \<and> rd_types d ''id'' \<noteq> None then VString v else d_Get d k)"
  by (cases "k = ''id''"; cases "rd_types d ''id''")
     (simp_all add: d_SetId_def d_Get_def merged_def zeroOf_def split: option.splits)

lemma copyRefs_other_key:
  "copyRefs es w d derr = (derr', d') \<Longrightarrow> k \<notin> fst ` set es \<Longrightarrow> d_Get d' k = d_Get d k"
proof (induction es arbitrary: d derr)
  case Nil
  then show ?case by simp
next
  case (Cons e es)
  obtain k1 q where e: "e = (k1, q)" by (cases e)
  obtain r d1 where s: "d_Set d k1 (deref q w) = (r, d1)" by (cases "d_Set d k1 (deref q w)")
  from Cons.prems e have k: "k \<noteq> k1" "k \<notin> fst ` set es" by auto
  from Cons.prems(1) e s obtain derr1 where "copyRefs es w d1 derr1 = (derr', d')"
    by (cases r) auto
  from Cons.IH [OF this k(2)] d_Set_other_key [OF s k(1)] show ?case by simp
qed

lemma d_SetTemplate_other_key:
  "d_SetTemplate d k m = (e, d') \<Longrightarrow> k' \<noteq> k \<Longrightarrow> d_Get d' k' = d_Get d k'"
  by (auto simp: d_SetTemplate_def split: sum.splits dest: d_Set_other_key)

lemma copyAttrs_incident_untouched:
  assumes "TriggerType w \<noteq> Some ''incident_change''" and "field \<in> set incidentFields"
  shows "d_Get (snd (outgoingWebhookCopyAttrs d w)) field = d_Get d field"
proof -
  define tt where "tt = (case TriggerType w of None \<Rightarrow> [] | Some t \<Rightarrow> t)"
  have tt: "tt \<noteq> ''incident_change''" using assms(1) by (auto simp: tt_def split: option.splits)
  obtain derr d1 where c: "copyRefs (outgoingWebhookRef tt) w d [] = (derr, d1)"
    by (cases "copyRefs (outgoingWebhookRef tt) w d []")
  have "field \<notin> fst ` set (outgoingWebhookRef tt)"
    using tt assms(2) by (auto simp: outgoingWebhookRef_def Let_def incidentFields_def)
  from copyRefs_other_key [OF c this] have g1: "d_Get d1 field = d_Get d field" .
  have ne: "field \<noteq> ''custom_webhook_template_attributes''"
    using assms(2) by (auto simp: incidentFields_def)
  show ?thesis
  proof (cases "CustomWebhookTemplateAttributes w")
    case None
    then show ?thesis using c g1 by (simp add: outgoingWebhookCopyAttrs_def flip: tt_def)
  next
    case (Some t)
    obtain r d2 where s: "d_SetTemplate d1 ''custom_webhook_template_attributes'' (templateMapOf t) = (r, d2)"
      by (cases "d_SetTemplate d1 ''custom_webhook_template_attributes'' (templateMapOf t)")
    have "snd (outgoingWebhookCopyAttrs d w) = d2"
      using c Some s by (cases r) (simp_all add: outgoingWebhookCopyAttrs_def flip: tt_def)
    with d_SetTemplate_other_key [OF s ne] g1 show ?thesis by simp
  qed
qed

text \<open>
  C5. The list of references produced by \<open>outgoingWebhookRef\<close> holds \<open>id\<close>,
  \<open>name\<close>, \<open>url\<close> and \<open>trigger_type\<close> in all cases, and each of
  \<open>on_incident_started\<close>, \<open>on_incident_acknowledged\<close>, \<open>on_incident_resolved\<close>
  exactly when \<open>triggerType\<close> is \<open>incident_change\<close>. Hence the request of a create or
  an update of a record with another trigger type leaves the three incident flags nil, and
  copying back a response with another trigger type leaves the three attributes of the
  record as they are.
\<close>

theorem incident_flags_gated:
  "map fst (outgoingWebhookRef triggerType) =
     [''id'', ''name'', ''url'', ''trigger_type'']
     @ (if triggerType = ''incident_change'' then incidentFields else [])
   \<and> (\<forall>field \<in> set incidentFields.
        (field \<in> fst ` set (outgoingWebhookRef triggerType)) = (triggerType = ''incident_change''))
   \<and> (\<forall>w. d_Get d ''trigger_type'' \<noteq> VString ''incident_change''
          \<and> (outgoingWebhookCreateRequest d = Some w \<or> outgoingWebhookUpdateRequest d = Some w)
        \<longrightarrow> OnIncidentStarted w = None \<and> OnIncidentAcknowledged w = None
            \<and> OnIncidentResolved w = None)
   \<and> (\<forall>field \<in> set incidentFields. TriggerType w \<noteq> Some ''incident_change''
        \<longrightarrow> d_Get (snd (outgoingWebhookCopyAttrs d w)) field = d_Get d field)"
proof (intro conjI allI ballI impI)
  show "map fst (outgoingWebhookRef triggerType) =
     [''id'', ''name'', ''url'', ''trigger_type'']
     @ (if triggerType = ''incident_change'' then incidentFields else [])"
    by (simp add: outgoingWebhookRef_def Let_def incidentFields_def)
next
  fix field assume "field \<in> set incidentFields"
  then show "(field \<in> fst ` set (outgoingWebhookRef triggerType)) = (triggerType = ''incident_change'')"
    by (auto simp: outgoingWebhookRef_def Let_def incidentFields_def)
next
  fix w0
  assume a: "d_Get d ''trigger_type'' \<noteq> VString ''incident_change''
          \<and> (outgoingWebhookCreateRequest d = Some w0 \<or> outgoingWebhookUpdateRequest d = Some w0)"
  have nil: "deref p zeroOutgoingWebhook = VNil" for p
    by (cases p) (simp_all add: zeroOutgoingWebhook_def)
  have "deref p w0 = VNil"
    if p: "p \<in> {PtrOnIncidentStarted, PtrOnIncidentAcknowledged, PtrOnIncidentResolved}" for p
  proof -
    from a consider (create) "outgoingWebhookCreateRequest d = Some w0"
      | (update) "outgoingWebhookUpdateRequest d = Some w0" by blast
    then show ?thesis
    proof cases
      case create
      then obtain tt w1 w2 where tt: "d_Get d ''trigger_type'' = VString tt"
        and l1: "loadRefs d (outgoingWebhookRef tt) zeroOutgoingWebhook = Some w1"
        and l2: "load d ''team_name'' PtrTeamName w1 = Some w2"
        and l3: "loadTemplate d w2 = Some w0"
        by (auto simp: outgoingWebhookCreateRequest_def split: val.splits option.splits)
      from a tt have "tt \<noteq> ''incident_change''" by simp
      with p have "p \<notin> snd ` set (outgoingWebhookRef tt)"
        by (auto simp: outgoingWebhookRef_def Let_def)
      from loadRefs_other [OF l1 this] have "deref p w1 = VNil" by (simp add: nil)
      moreover from p have "p \<noteq> PtrTeamName" by auto
      ultimately show ?thesis using load_other [OF l2] loadTemplate_deref [OF l3] by simp
    next
      case update
      then obtain tt w1 where tt: "d_Get d ''trigger_type'' = VString tt"
        and l1: "loadChangedRefs d (outgoingWebhookRef tt) zeroOutgoingWebhook = Some w1"
        and l3: "loadTemplate d w1 = Some w0 \<or> w1 = w0"
        by (auto simp: outgoingWebhookUpdateRequest_def split: val.splits option.splits if_splits)
      from a tt have "tt \<noteq> ''incident_change''" by simp
      with p have "\<forall>k. (k, p) \<in> set (outgoingWebhookRef tt) \<longrightarrow> \<not> d_HasChange d k"
        by (auto simp: outgoingWebhookRef_def Let_def)
      from loadChangedRefs_unchanged [OF l1 this] have "deref p w1 = VNil" by (simp add: nil)
      then show ?thesis using l3 loadTemplate_deref by auto
    qed
  qed
  from this [of PtrOnIncidentStarted] this [of PtrOnIncidentAcknowledged] this [of PtrOnIncidentResolved]
  show "OnIncidentStarted w0 = None" "OnIncidentAcknowledged w0 = None" "OnIncidentResolved w0 = None"
    by (auto elim: ptrBool.elims)
next
  fix field assume "field \<in> set incidentFields" "TriggerType w \<noteq> Some ''incident_change''"
  then show "d_Get (snd (outgoingWebhookCopyAttrs d w)) field = d_Get d field"
    by (simp add: copyAttrs_incident_untouched)
qed

theorem incident_flags_gated_witness:
  "d_Get (exampleWebhook ''monitor_change'' False) ''trigger_type'' \<noteq> VString ''incident_change''
   \<and> (\<exists>w. outgoingWebhookCreateRequest (exampleWebhook ''monitor_change'' False) = Some w
         \<and> OnIncidentStarted w = None \<and> OnIncidentAcknowledged w = None
         \<and> OnIncidentResolved w = None)
   \<and> map fst (outgoingWebhookRef ''monitor_change'') = [''id'', ''name'', ''url'', ''trigger_type'']
   \<and> ''on_incident_started'' \<in> set incidentFields
   \<and> TriggerType (exampleRequest\<lparr>TriggerType := Some ''monitor_change''\<rparr>) \<noteq> Some ''incident_change''
   \<and> d_Get (snd (outgoingWebhookCopyAttrs (exampleWebhook ''monitor_change'' False)
                   (exampleRequest\<lparr>TriggerType := Some ''monitor_change''\<rparr>)))
         ''on_incident_started''
       = d_Get (exampleWebhook ''monitor_change'' False) ''on_incident_started''"
proof -
  let ?d = "exampleWebhook ''monitor_change'' False"
  let ?w = "exampleRequest\<lparr>TriggerType := Some ''monitor_change''\<rparr>"
  note all = incident_flags_gated [of "''monitor_change''" ?d ?w]
  have tt: "d_Get ?d ''trigger_type'' \<noteq> VString ''incident_change''"
    by (simp add: exampleWebhook_def d_Get_def merged_def)
  have "outgoingWebhookCreateRequest ?d \<noteq> None"
    by (simp add: outgoingWebhookCreateRequest_def exampleWebhook_def d_Get_def merged_def
        outgoingWebhookRef_def load_def d_GetOkExists_def loadTemplate_def d_GetOk_def zeroOf_def
        outgoingWebhookTypes_def outgoingWebhookSchema_def Schema_def zeroOutgoingWebhook_def
        templateOfAttrs_def exampleBlock_def)
  then obtain w where w: "outgoingWebhookCreateRequest ?d = Some w" by blast
  from all [THEN conjunct2, THEN conjunct2, THEN conjunct1, rule_format, of w] tt w
  have flags: "OnIncidentStarted w = None \<and> OnIncidentAcknowledged w = None
         \<and> OnIncidentResolved w = None" by blast
  have field: "''on_incident_started'' \<in> set incidentFields" by (simp add: incidentFields_def)
  have ne: "TriggerType ?w \<noteq> Some ''incident_change''" by simp
  from all [THEN conjunct2, THEN conjunct2, THEN conjunct2, rule_format, OF field ne]
  have copy: "d_Get (snd (outgoingWebhookCopyAttrs ?d ?w)) ''on_incident_started''
       = d_Get ?d ''on_incident_started''" .
  from all [THEN conjunct1]
  have keys: "map fst (outgoingWebhookRef ''monitor_change'') = [''id'', ''name'', ''url'', ''trigger_type'']"
    by simp
  show ?thesis using tt w flags keys field ne copy by blast
qed

section \<open>Properties of the update request\<close>

lemma ref_subset:
  "(k, p) \<in> set (outgoingWebhookRef tt) \<Longrightarrow> (k, p) \<in> set (outgoingWebhookRef ''incident_change'')"
  by (auto simp: outgoingWebhookRef_def Let_def split: if_splits)

lemma ref_key_of_ptr:
  "(k, p) \<in> set (outgoingWebhookRef ''incident_change'') \<Longrightarrow>
   (k', p) \<in> set (outgoingWebhookRef ''incident_change'') \<Longrightarrow> k' = k"
  by (auto simp: outgoingWebhookRef_def Let_def)

lemma ptrString_nil: "(ptrString x = VNil) = (x = None)"
  by (cases x) simp_all

lemma ptrBool_nil: "(ptrBool x = VNil) = (x = None)"
  by (cases x) simp_all

lemma Some_map_option: "(\<exists>v. Some v = map_option f x) = (x \<noteq> None)"
  by (cases x) auto

lemma marshal_key_iff:
  "(k, p) \<in> set (outgoingWebhookRef ''incident_change'') \<Longrightarrow>
   (k \<in> fst ` set (marshalOutgoingWebhook w)) = (deref p w \<noteq> VNil)"
  unfolding fst_omitempty marshalOutgoingWebhook_def
  by (auto simp: outgoingWebhookRef_def Let_def ptrString_nil ptrBool_nil Some_map_option)

lemma updateRequest_unchanged_nil:
  assumes req: "outgoingWebhookUpdateRequest d = Some w"
    and kp: "(k, p) \<in> set (outgoingWebhookRef ''incident_change'')"
    and same: "\<not> d_HasChange d k"
  shows "deref p w = VNil"
proof -
  have nil: "deref p zeroOutgoingWebhook = VNil"
    by (cases p) (simp_all add: zeroOutgoingWebhook_def)
  from req obtain tt w1 where tt: "d_Get d ''trigger_type'' = VString tt"
    and l1: "loadChangedRefs d (outgoingWebhookRef tt) zeroOutgoingWebhook = Some w1"
    and l3: "loadTemplate d w1 = Some w \<or> w1 = w"
    by (auto simp: outgoingWebhookUpdateRequest_def split: val.splits option.splits if_splits)
  have "\<forall>k'. (k', p) \<in> set (outgoingWebhookRef tt) \<longrightarrow> \<not> d_HasChange d k'"
    using ref_key_of_ptr [OF kp] ref_subset same by blast
  from loadChangedRefs_unchanged [OF l1 this] have "deref p w1 = VNil" by (simp add: nil)
  then show ?thesis using l3 loadTemplate_deref by auto
qed

text \<open>
  C9. In the request of an update, each of the basic fields (\<open>id\<close>, \<open>name\<close>,
  \<open>url\<close>, \<open>trigger_type\<close> and the three incident flags) is part of the serialized
  payload only if its attribute has changed; the pointer of an unchanged basic field stays
  nil and the field is left out of the payload.
\<close>

theorem update_sends_changed_only:
  assumes "outgoingWebhookUpdateRequest d = Some w"
  shows "\<forall>(k, p) \<in> set (outgoingWebhookRef ''incident_change'').
           (k \<in> fst ` set (marshalOutgoingWebhook w) \<longrightarrow> d_HasChange d k)
         \<and> (\<not> d_HasChange d k \<longrightarrow>
               deref p w = VNil \<and> k \<notin> fst ` set (marshalOutgoingWebhook w))"
proof (intro ballI, clarify)
  fix k p
  assume kp: "(k, p) \<in> set (outgoingWebhookRef ''incident_change'')"
  show "(k \<in> fst ` set (marshalOutgoingWebhook w) \<longrightarrow> d_HasChange d k)
         \<and> (\<not> d_HasChange d k \<longrightarrow>
               deref p w = VNil \<and> k \<notin> fst ` set (marshalOutgoingWebhook w))"
    using updateRequest_unchanged_nil [OF assms kp] marshal_key_iff [OF kp, of w] by blast
qed

theorem update_sends_changed_only_witness:
  "outgoingWebhookUpdateRequest exampleRename = Some (zeroOutgoingWebhook\<lparr>Name := Some ''pager''\<rparr>)
   \<and> marshalOutgoingWebhook (zeroOutgoingWebhook\<lparr>Name := Some ''pager''\<rparr>)
       = [(''name'', JString ''pager'')]
   \<and> (''name'', PtrName) \<in> set (outgoingWebhookRef ''incident_change'')
   \<and> ''name'' \<in> fst ` set (marshalOutgoingWebhook (zeroOutgoingWebhook\<lparr>Name := Some ''pager''\<rparr>))
   \<and> d_HasChange exampleRename ''name''
   \<and> (''url'', PtrURL) \<in> set (outgoingWebhookRef ''incident_change'')
   \<and> \<not> d_HasChange exampleRename ''url''
   \<and> deref PtrURL (zeroOutgoingWebhook\<lparr>Name := Some ''pager''\<rparr>) = VNil
   \<and> ''url'' \<notin> fst ` set (marshalOutgoingWebhook (zeroOutgoingWebhook\<lparr>Name := Some ''pager''\<rparr>))"
proof -
  let ?w = "zeroOutgoingWebhook\<lparr>Name := Some ''pager''\<rparr>"
  have ch: "d_HasChange exampleRename k = (k = ''name'')" for k
    by (simp add: d_HasChange_def exampleRename_def exampleWebhook_def)
  have req: "outgoingWebhookUpdateRequest exampleRename = Some ?w"
  proof -
    have tt: "d_Get exampleRename ''trigger_type'' = VString ''incident_change''"
      by (simp add: exampleRename_def exampleWebhook_def d_Get_def merged_def)
    have ld: "load exampleRename ''name'' PtrName zeroOutgoingWebhook = Some ?w"
      by (simp add: load_def d_GetOkExists_def d_Get_def merged_def exampleRename_def
          exampleWebhook_def)
    show ?thesis
      by (simp add: outgoingWebhookUpdateRequest_def tt outgoingWebhookRef_def Let_def ch ld)
  qed
  have m: "marshalOutgoingWebhook ?w = [(''name'', JString ''pager'')]"
    by (simp add: marshalOutgoingWebhook_def zeroOutgoingWebhook_def)
  have name: "(''name'', PtrName) \<in> set (outgoingWebhookRef ''incident_change'')"
    and url: "(''url'', PtrURL) \<in> set (outgoingWebhookRef ''incident_change'')"
    by (simp_all add: outgoingWebhookRef_def Let_def)
  have inm: "''name'' \<in> fst ` set (marshalOutgoingWebhook ?w)" by (simp add: m)
  have nurl: "\<not> d_HasChange exampleRename ''url''" by (simp add: ch)
  note all = update_sends_changed_only [OF req]
  from all name inm have c1: "d_HasChange exampleRename ''name''" by blast
  from all url nurl have c2: "deref PtrURL ?w = VNil
      \<and> ''url'' \<notin> fst ` set (marshalOutgoingWebhook ?w)" by blast
  show ?thesis using req m name inm c1 url nurl c2 by blast
qed

section \<open>Properties of reading a resource\<close>

text \<open>
  C8, as the code has it. \<open>outgoingWebhookRead\<close> looks at the error of \<open>resourceRead\<close>
  first. When \<open>resourceRead\<close> returns no error and \<open>ok = false\<close>, the remote service
  no longer has the resource: the handler sets the ID of the record to the empty string,
  and with it the attribute \<open>id\<close>, returns no diagnostic, and leaves every other
  attribute, whatever else the handlers have written, the prior state and the plan of the
  record as they are. When
  \<open>resourceRead\<close> returns an error, whatever \<open>ok\<close> is, the handler returns that error
  and leaves the whole record, the ID too, as it is.
\<close>

theorem read_gone:
  "(resourceRead meta (webhookPath d) = (None, False, out) \<longrightarrow>
      outgoingWebhookRead meta d = ([], d_SetId d [])
      \<and> d_Id (snd (outgoingWebhookRead meta d)) = []
      \<and> (rd_types d ''id'' \<noteq> None \<longrightarrow>
            d_Get (snd (outgoingWebhookRead meta d)) ''id'' = VString [])
      \<and> (\<forall>k. k \<noteq> ''id'' \<longrightarrow> d_Get (snd (outgoingWebhookRead meta d)) k = d_Get d k)
      \<and> rd_state (snd (outgoingWebhookRead meta d)) = rd_state d
      \<and> rd_plan (snd (outgoingWebhookRead meta d)) = rd_plan d
      \<and> rd_types (snd (outgoingWebhookRead meta d)) = rd_types d
      \<and> (\<forall>k. k \<noteq> ''id'' \<longrightarrow> rd_set (snd (outgoingWebhookRead meta d)) k = rd_set d k))
   \<and> (resourceRead meta (webhookPath d) = (Some err, ok, out) \<longrightarrow>
      outgoingWebhookRead meta d = (err, d))"
proof (intro conjI impI)
  assume r: "resourceRead meta (webhookPath d) = (None, False, out)"
  then have run: "outgoingWebhookRead meta d = ([], d_SetId d [])"
    by (simp add: outgoingWebhookRead_def)
  then show "outgoingWebhookRead meta d = ([], d_SetId d [])" .
  show "d_Id (snd (outgoingWebhookRead meta d)) = []"
    by (simp add: run d_Id_def d_SetId_def)
  show "d_Get (snd (outgoingWebhookRead meta d)) ''id'' = VString []"
    if "rd_types d ''id'' \<noteq> None"
    using that by (simp add: run d_Get_d_SetId)
  show "\<forall>k. k \<noteq> ''id'' \<longrightarrow> d_Get (snd (outgoingWebhookRead meta d)) k = d_Get d k"
    by (simp add: run d_Get_d_SetId)
  show "rd_state (snd (outgoingWebhookRead meta d)) = rd_state d"
    "rd_plan (snd (outgoingWebhookRead meta d)) = rd_plan d"
    "rd_types (snd (outgoingWebhookRead meta d)) = rd_types d"
    by (simp_all add: run d_SetId_def)
  show "\<forall>k. k \<noteq> ''id'' \<longrightarrow> rd_set (snd (outgoingWebhookRead meta d)) k = rd_set d k"
    by (simp add: run d_SetId_def)
next
  assume "resourceRead meta (webhookPath d) = (Some err, ok, out)"
  then show "outgoingWebhookRead meta d = (err, d)"
    by (simp add: outgoingWebhookRead_def)
qed

theorem read_gone_witness:
  "resourceRead goneRemote (webhookPath exampleRename)
     = (None, False, \<lparr>DataID = [], DataAttributes = zeroOutgoingWebhook\<rparr>)
   \<and> outgoingWebhookRead goneRemote exampleRename = ([], d_SetId exampleRename [])
   \<and> d_Id exampleRename = ''42''
   \<and> d_Id (snd (outgoingWebhookRead goneRemote exampleRename)) = []
   \<and> d_Get (snd (outgoingWebhookRead goneRemote exampleRename)) ''id'' = VString []
   \<and> d_Get (snd (outgoingWebhookRead goneRemote exampleRename)) ''name'' = VString ''pager''
   \<and> resourceRead errorRemote (webhookPath exampleRename)
     = (Some [Diagnostic ''connection refused''], False,
        \<lparr>DataID = [], DataAttributes = zeroOutgoingWebhook\<rparr>)
   \<and> outgoingWebhookRead errorRemote exampleRename
     = ([Diagnostic ''connection refused''], exampleRename)"
proof -
  have r: "resourceRead goneRemote (webhookPath exampleRename)
     = (None, False, \<lparr>DataID = [], DataAttributes = zeroOutgoingWebhook\<rparr>)"
    by (simp add: goneRemote_def)
  have e: "resourceRead errorRemote (webhookPath exampleRename)
     = (Some [Diagnostic ''connection refused''], False,
        \<lparr>DataID = [], DataAttributes = zeroOutgoingWebhook\<rparr>)"
    by (simp add: errorRemote_def)
  have i: "d_Id exampleRename = ''42''" by (simp add: d_Id_def exampleRename_def)
  have t: "rd_types exampleRename ''id'' \<noteq> None"
    by (simp add: exampleRename_def exampleWebhook_def outgoingWebhookTypes_def
        outgoingWebhookSchema_def Schema_def)
  have n: "d_Get exampleRename ''name'' = VString ''pager''"
    by (simp add: exampleRename_def exampleWebhook_def d_Get_def merged_def)
  note gone = read_gone [where meta = goneRemote and d = exampleRename
      and out = "\<lparr>DataID = [], DataAttributes = zeroOutgoingWebhook\<rparr>",
      THEN conjunct1, rule_format, OF r]
  note err = read_gone [where meta = errorRemote and d = exampleRename
      and err = "[Diagnostic ''connection refused'']" and ok = False
      and out = "\<lparr>DataID = [], DataAttributes = zeroOutgoingWebhook\<rparr>",
      THEN conjunct2, rule_format, OF e]
  note g1 = gone [THEN conjunct1]
  note g2 = gone [THEN conjunct2, THEN conjunct1]
  note g3 = gone [THEN conjunct2, THEN conjunct2, THEN conjunct1, rule_format, OF t]
  note g4 = gone [THEN conjunct2, THEN conjunct2, THEN conjunct2, THEN conjunct1]
  from g4 have g5: "d_Get (snd (outgoingWebhookRead goneRemote exampleRename)) ''name''
      = d_Get exampleRename ''name''" by simp
  show ?thesis using r e i g1 g2 g3 g5 n err by simp
qed

text \<open>
  C8 as stated fails: \<open>resourceRead\<close> returns \<open>ok = false\<close> together with an error; the
  handler returns the error and the ID of the record is not cleared.
\<close>

theorem read_gone_counterexample:
  "fst (snd (resourceRead errorRemote (webhookPath exampleRename))) = False
   \<and> fst (outgoingWebhookRead errorRemote exampleRename) = [Diagnostic ''connection refused'']
   \<and> d_Id (snd (outgoingWebhookRead errorRemote exampleRename)) = ''42''"
  by (simp add: outgoingWebhookRead_def errorRemote_def d_Id_def exampleRename_def)

section \<open>Create followed by read\<close>






















text \<open>
  A template block that is nil, or one that has a header that is nil, makes
  \<open>outgoingWebhookCreate\<close> panic before it sends a request.
\<close>

lemma headersOf_nil: "None \<in> set hs \<Longrightarrow> headersOf hs = None"
proof (induction hs)
  case Nil
  then show ?case by simp
next
  case (Cons h hs)
  then show ?case by (cases h) auto
qed

lemma loadTemplate_nil:
  assumes "d_GetOk d ''custom_webhook_template_attributes'' = (VList (e # rest), True)"
    and "e = ENil \<or> (\<exists>b. e = EBlock b \<and> None \<in> set (tb_headers_template b))"
  shows "loadTemplate d w = None"
  using assms by (auto simp: loadTemplate_def templateOfAttrs_def headersOf_nil)

lemma outgoingWebhookCreate_nil:
  assumes "d_GetOk d ''custom_webhook_template_attributes'' = (VList (e # rest), True)"
    and "e = ENil \<or> (\<exists>b. e = EBlock b \<and> None \<in> set (tb_headers_template b))"
  shows "outgoingWebhookCreate meta d = None"
  using loadTemplate_nil [OF assms]
  by (simp add: outgoingWebhookCreate_def outgoingWebhookCreateRequest_def
      split: val.splits option.splits)



end
